theory Spec2Isabelle
  imports Main "HOL-Library.State_Monad" "HOL-Library.Sublist"
begin

section \<open>The search how-to (modules/howtos/examples/search.py)\<close>

text \<open>
  The file is a documentation page whose code is the body of one static method,
  \<^verbatim>\<open>Search.__call__\<close>: a sequence of tagged snippets, each of which builds a few
  objects of the couchbase client library and calls a method of it. The library is
  not part of the repository. It is a parameter of the model: a value of the library
  is represented by the expression that produced it (the call, its receiver and its
  arguments), and the two things the program cannot decide for itself, whether a
  call raises and how many items an iteration yields, are asked of the parameter.
\<close>

subsection \<open>Values\<close>

text \<open>
  \<open>Name\<close> is a name bound by an import statement, \<open>App\<close> the call of a named class
  or function with positional and keyword arguments, \<open>Meth\<close> the call of a method on
  a receiver, \<open>Attr\<close> an attribute read, \<open>Item v i\<close> the \<open>i\<close>-th item that
  iterating \<open>v\<close> yields. The binary \<^verbatim>\<open>+\<close> on a string literal is the method
  \<^verbatim>\<open>__add__\<close> of the literal.
\<close>

datatype val =
    Str string
  | Num int
  | ListV "val list"
  | DictV "(string \<times> val) list"
  | Name string
  | App string "val list" "(string \<times> val) list"
  | Meth val string "val list" "(string \<times> val) list"
  | Attr val string
  | Item val nat

text \<open>
  The one exception class the source names is \<^verbatim>\<open>CouchbaseException\<close> (line 30); an
  except clause for it also matches its subclasses, so the constructor stands for the
  class with its subclasses. Every other exception is \<open>OtherException\<close> with its name.
\<close>

datatype exn = CouchbaseException | OtherException string

subsection \<open>The library as a parameter, and the state of a run\<close>

text \<open>
  \<open>raises L h e\<close>: does the call \<open>e\<close>, made after the calls \<open>h\<close>, raise, and what.
  \<open>yields L h v\<close>: the number of items that iterating \<open>v\<close> yields after the calls \<open>h\<close>;
  a result stream is finite, and what can raise is the call that gives the stream.
\<close>

text \<open>
  Modelled from the spec: the metadata error list of a search result, which belongs to the
  external service and is in no file of the repository. The spec says that the service
  "may report partial success (some index partitions unavailable) via a metadata error
  list even when the call itself does not signal failure"; lines 341 to 344 of the source
  say the same in prose. \<open>errors L h r\<close> is the error list that the metadata of the
  result \<open>r\<close> holds after the calls \<open>h\<close>; it is independent of \<open>raises\<close>, so a call
  that returns may carry a non-empty list.
\<close>

record lib =
  raises :: "val list \<Rightarrow> val \<Rightarrow> exn option"
  yields :: "val list \<Rightarrow> val \<Rightarrow> nat"
  errors :: "val list \<Rightarrow> val \<Rightarrow> string list"

text \<open>
  The state of a run: the calls made so far, in order, and the exception in flight.
  While an exception is in flight every operation is skipped, so the trace ends at the
  call that raised, until an except clause that matches takes the exception away.
\<close>

record st =
  trace :: "val list"
  raised :: "exn option"

text \<open>
  A call is recorded and the library is asked whether it raises; its value is the call
  itself. A for statement runs its body once for each item; a try statement runs its body
  and, when the exception in flight is of the class of its except clause, takes it away
  and runs the handler.
\<close>

definition call :: "lib \<Rightarrow> val \<Rightarrow> (st, val) state" where
  "call L e = State (\<lambda>s.
     if raised s \<noteq> None then (e, s)
     else (e, s\<lparr>trace := trace s @ [e], raised := raises L (trace s) e\<rparr>))"

primrec loop :: "('a \<Rightarrow> (st, unit) state) \<Rightarrow> 'a list \<Rightarrow> (st, unit) state" where
  "loop body [] = State_Monad.return ()"
| "loop body (x # xs) = do { body x; loop body xs }"

definition for_in :: "lib \<Rightarrow> val \<Rightarrow> (val \<Rightarrow> (st, unit) state) \<Rightarrow> (st, unit) state" where
  "for_in L v body = do {
     s \<leftarrow> State_Monad.get;
     loop body (map (Item v) [0 ..< yields L (trace s) v])
   }"

definition try_except :: "(st, unit) state \<Rightarrow> exn \<Rightarrow> (st, unit) state \<Rightarrow> (st, unit) state" where
  "try_except body E handler = do {
     s0 \<leftarrow> State_Monad.get;
     if raised s0 \<noteq> None then State_Monad.return ()
     else do {
       body;
       s \<leftarrow> State_Monad.get;
       if raised s = Some E then do { State_Monad.set (s\<lparr>raised := None\<rparr>); handler }
       else State_Monad.return ()
     }
   }"

subsection \<open>The imports (lines 29 to 35)\<close>

definition couchbase_imports :: "string list" where
  "couchbase_imports =
     [''Cluster'', ''ClusterOptions'', ''PasswordAuthenticator'',
      ''CouchbaseException'',
      ''QueryStringQuery'', ''SearchQuery'', ''SearchOptions'', ''PrefixQuery'',
      ''HighlightStyle'', ''SortField'', ''SortScore'', ''TermFacet'',
      ''MutationState'']"

subsection \<open>The snippets of \<^verbatim>\<open>Search.__call__\<close>\<close>

text \<open>
  Lines 58 to 69, tag \<^verbatim>\<open>simple\<close>. The print call of line 64 has no closing
  bracket in the file; the snippet is read here with that call closed at the end of its
  line, so that the two print statements are the body of the loop. The body of the try
  statement (lines 61 to 66) and its handler (line 68) come first, then the statement.
  The import of line 59 binds the name \<^verbatim>\<open>traceback\<close> and is not a call.
\<close>

definition simple_try :: "lib \<Rightarrow> val \<Rightarrow> (st, unit) state" where
  "simple_try L cluster = do {
     q \<leftarrow> call L (App ''QueryStringQuery'' [Str ''query''] []);
     result \<leftarrow> call L (Meth cluster ''search_query'' [Str ''index'', q] []);
     rows \<leftarrow> call L (Meth result ''rows'' [] []);
     for_in L rows (\<lambda>row. do {
       f \<leftarrow> call L (Meth (Str ''Found row {}'') ''format'' [row] []);
       _ \<leftarrow> call L (App ''print'' [f] []);
       md \<leftarrow> call L (Meth result ''metadata'' [] []);
       me \<leftarrow> call L (Meth md ''metrics'' [] []);
       t \<leftarrow> call L (Meth me ''total_rows'' [] []);
       a \<leftarrow> call L (Meth (Str ''Reported total rows: '') ''__add__'' [t] []);
       _ \<leftarrow> call L (App ''print'' [a] []);
       State_Monad.return ()
     })
   }"

definition simple_except :: "lib \<Rightarrow> (st, unit) state" where
  "simple_except L = do {
     tb \<leftarrow> call L (Meth (Name ''traceback'') ''format_exc'' [] []);
     _ \<leftarrow> call L (Meth (Name ''logging'') ''error'' [tb] []);
     State_Monad.return ()
   }"

definition simple_snippet :: "lib \<Rightarrow> val \<Rightarrow> (st, unit) state" where
  "simple_snippet L cluster =
     try_except (simple_try L cluster) CouchbaseException (simple_except L)"

text \<open>Lines 148 to 157, tag \<^verbatim>\<open>squery\<close>.\<close>

definition squery_snippet :: "lib \<Rightarrow> val \<Rightarrow> (st, unit) state" where
  "squery_snippet L cluster = do {
     q \<leftarrow> call L (App ''PrefixQuery'' [Str ''airports-''] []);
     opts \<leftarrow> call L (App ''SearchOptions'' [] [(''fields'', ListV [Str ''field-1''])]);
     result \<leftarrow> call L (Meth cluster ''search_query'' [Str ''my-index-name'', q, opts] []);
     rows \<leftarrow> call L (Meth result ''rows'' [] []);
     for_in L rows (\<lambda>row. do {
       sc \<leftarrow> call L (Meth row ''score'' [] []);
       f1 \<leftarrow> call L (Meth (Str ''Score: {}'') ''format'' [sc] []);
       _ \<leftarrow> call L (App ''print'' [f1] []);
       i \<leftarrow> call L (Meth row ''id'' [] []);
       f2 \<leftarrow> call L (Meth (Str ''Document Id: {}'') ''format'' [i] []);
       _ \<leftarrow> call L (App ''print'' [f2] []);
       fs \<leftarrow> call L (Meth row ''fields'' [] []);
       _ \<leftarrow> call L (App ''print'' [fs] []);
       State_Monad.return ()
     })
   }"

text \<open>Lines 167 to 173, tag \<^verbatim>\<open>limit\<close>.\<close>

definition limit_snippet :: "lib \<Rightarrow> val \<Rightarrow> (st, unit) state" where
  "limit_snippet L cluster = do {
     q \<leftarrow> call L (App ''QueryStringQuery'' [Str ''query''] []);
     opts \<leftarrow> call L (App ''SearchOptions'' [] [(''skip'', Num 3), (''limit'', Num 4)]);
     result \<leftarrow> call L (Meth cluster ''search_query'' [Str ''index'', q, opts] []);
     State_Monad.return ()
   }"

text \<open>Lines 193 to 202, tag \<^verbatim>\<open>ryow\<close>.\<close>

definition ryow_snippet :: "lib \<Rightarrow> val \<Rightarrow> val \<Rightarrow> (st, unit) state" where
  "ryow_snippet L cluster collection = do {
     mutation_result \<leftarrow> call L (Meth collection ''upsert'' [Str ''key'', DictV []] []);
     ms \<leftarrow> call L (App ''MutationState'' [] []);
     mutation_state \<leftarrow> call L (Meth ms ''add_results'' [mutation_result] []);
     q \<leftarrow> call L (App ''QueryStringQuery'' [Str ''query''] []);
     so \<leftarrow> call L (App ''SearchOptions'' [] []);
     opts \<leftarrow> call L (Meth so ''consistent_with'' [mutation_state] []);
     search_result \<leftarrow> call L (Meth cluster ''search_query'' [Str ''index'', q, opts] []);
     State_Monad.return ()
   }"

text \<open>Lines 217 to 223, tag \<^verbatim>\<open>highlight\<close>.\<close>

definition highlight_snippet :: "lib \<Rightarrow> val \<Rightarrow> (st, unit) state" where
  "highlight_snippet L cluster = do {
     q \<leftarrow> call L (App ''QueryStringQuery'' [Str ''query''] []);
     html \<leftarrow> call L (Attr (Name ''HighlightStyle'') ''HTML'');
     opts \<leftarrow> call L (App ''SearchOptions'' []
               [(''highlight_style'', html),
                (''highlight_fields'', ListV [Str ''field1'', Str ''field2''])]);
     result \<leftarrow> call L (Meth cluster ''search_query'' [Str ''index'', q, opts] []);
     State_Monad.return ()
   }"

text \<open>Lines 236 to 241, tag \<^verbatim>\<open>sort\<close>.\<close>

definition sort_snippet :: "lib \<Rightarrow> val \<Rightarrow> (st, unit) state" where
  "sort_snippet L cluster = do {
     q \<leftarrow> call L (App ''QueryStringQuery'' [Str ''query''] []);
     ss \<leftarrow> call L (App ''SortScore'' [] []);
     sf \<leftarrow> call L (App ''SortField'' [Str ''field''] []);
     opts \<leftarrow> call L (App ''SearchOptions'' [] [(''sort'', ListV [ss, sf])]);
     result \<leftarrow> call L (Meth cluster ''search_query'' [Str ''index'', q, opts] []);
     State_Monad.return ()
   }"

text \<open>Lines 255 to 262, tag \<^verbatim>\<open>facets\<close>.\<close>

definition facets_snippet :: "lib \<Rightarrow> val \<Rightarrow> (st, unit) state" where
  "facets_snippet L cluster = do {
     q \<leftarrow> call L (App ''QueryStringQuery'' [Str ''query''] []);
     tf \<leftarrow> call L (App ''TermFacet'' [Str ''category'', Num 5] []);
     d \<leftarrow> call L (App ''dict'' [] [(''categories'', tf)]);
     opts \<leftarrow> call L (App ''SearchOptions'' [] [(''facets'', d)]);
     result \<leftarrow> call L (Meth cluster ''search_query'' [Str ''index'', q, opts] []);
     State_Monad.return ()
   }"

text \<open>Lines 274 to 280, tag \<^verbatim>\<open>fields\<close>; its result is the one the last two snippets read.\<close>

definition fields_snippet :: "lib \<Rightarrow> val \<Rightarrow> (st, val) state" where
  "fields_snippet L cluster = do {
     q \<leftarrow> call L (App ''QueryStringQuery'' [Str ''query''] []);
     opts \<leftarrow> call L (App ''SearchOptions'' [] [(''fields'', ListV [Str ''field1'', Str ''field2''])]);
     result \<leftarrow> call L (Meth cluster ''search_query'' [Str ''index'', q, opts] []);
     State_Monad.return result
   }"

text \<open>Lines 307 to 311, tag \<^verbatim>\<open>simpleresult\<close>.\<close>

definition simpleresult_snippet :: "lib \<Rightarrow> val \<Rightarrow> (st, unit) state" where
  "simpleresult_snippet L result = do {
     hits \<leftarrow> call L (Meth result ''hits'' [] []);
     for_in L hits (\<lambda>hit. do {
       document_id \<leftarrow> call L (Attr hit ''id'');
       score \<leftarrow> call L (Attr hit ''score'');
       State_Monad.return ()
     })
   }"

text \<open>Lines 319 to 323, tag \<^verbatim>\<open>simplefacetresult\<close>.\<close>

definition simplefacetresult_snippet :: "lib \<Rightarrow> val \<Rightarrow> (st, unit) state" where
  "simplefacetresult_snippet L result = do {
     fcs \<leftarrow> call L (Meth result ''facets'' [] []);
     for_in L fcs (\<lambda>facet. do {
       name \<leftarrow> call L (Attr facet ''name'');
       total \<leftarrow> call L (Attr facet ''total'');
       State_Monad.return ()
     })
   }"

text \<open>
  Lines 42 to 45 and the snippets in the order of the file. The arguments of the static
  method are not used by its body.
\<close>

definition Search_body :: "lib \<Rightarrow> string list \<Rightarrow> (st, unit) state" where
  "Search_body L args = do {
     pa \<leftarrow> call L (App ''PasswordAuthenticator'' [Str ''Administrator'', Str ''password''] []);
     co \<leftarrow> call L (App ''ClusterOptions'' [pa] []);
     cluster \<leftarrow> call L (Meth (Name ''Cluster'') ''connect'' [Str ''localhost'', co] []);
     bucket \<leftarrow> call L (Meth cluster ''bucket'' [Str ''travel-sample''] []);
     collection \<leftarrow> call L (Meth bucket ''default_collection'' [] []);
     simple_snippet L cluster;
     squery_snippet L cluster;
     limit_snippet L cluster;
     ryow_snippet L cluster collection;
     highlight_snippet L cluster;
     sort_snippet L cluster;
     facets_snippet L cluster;
     result \<leftarrow> fields_snippet L cluster;
     simpleresult_snippet L result;
     simplefacetresult_snippet L result
   }"

definition Search_call :: "lib \<Rightarrow> string list \<Rightarrow> st" where
  "Search_call L args = snd (run_state (Search_body L args) \<lparr>trace = [], raised = None\<rparr>)"
section \<open>Runs\<close>

subsection \<open>Running a computation\<close>

text \<open>
  \<open>step L e\<close> is what \<open>call L e\<close> does to the state, and \<open>exec m s\<close> the state in
  which the computation \<open>m\<close>, started in \<open>s\<close>, ends.
\<close>

definition step :: "lib \<Rightarrow> val \<Rightarrow> st \<Rightarrow> st" where
  "step L e s = (if raised s \<noteq> None then s
                 else s\<lparr>trace := trace s @ [e], raised := raises L (trace s) e\<rparr>)"

definition exec :: "(st, 'a) state \<Rightarrow> st \<Rightarrow> st" where
  "exec m s = snd (run_state m s)"


text \<open>The values that the body binds to its variables, where later statements use them.\<close>

abbreviation auth_v :: val where
  "auth_v \<equiv> App ''PasswordAuthenticator'' [Str ''Administrator'', Str ''password''] []"

abbreviation cluster_v :: val where
  "cluster_v \<equiv> Meth (Name ''Cluster'') ''connect'' [Str ''localhost'', App ''ClusterOptions'' [auth_v] []] []"

abbreviation bucket_v :: val where
  "bucket_v \<equiv> Meth cluster_v ''bucket'' [Str ''travel-sample''] []"

abbreviation collection_v :: val where
  "collection_v \<equiv> Meth bucket_v ''default_collection'' [] []"

abbreviation query_string :: val where
  "query_string \<equiv> App ''QueryStringQuery'' [Str ''query''] []"

abbreviation search2 :: val where
  "search2 \<equiv> Meth cluster_v ''search_query'' [Str ''index'', query_string] []"

abbreviation search3 :: "val \<Rightarrow> val" where
  "search3 opts \<equiv> Meth cluster_v ''search_query'' [Str ''index'', query_string, opts] []"

abbreviation total_rows_of :: "val \<Rightarrow> val" where
  "total_rows_of r \<equiv> Meth (Meth (Meth r ''metadata'' [] []) ''metrics'' [] []) ''total_rows'' [] []"

abbreviation found_row :: "nat \<Rightarrow> val" where
  "found_row i \<equiv> Meth (Str ''Found row {}'') ''format'' [Item (Meth search2 ''rows'' [] []) i] []"

abbreviation reported_total :: val where
  "reported_total \<equiv> Meth (Str ''Reported total rows: '') ''__add__'' [total_rows_of search2] []"

abbreviation format_exc :: val where
  "format_exc \<equiv> Meth (Name ''traceback'') ''format_exc'' [] []"

abbreviation log_error :: val where
  "log_error \<equiv> Meth (Name ''logging'') ''error'' [format_exc] []"

abbreviation squery_opts :: val where
  "squery_opts \<equiv> App ''SearchOptions'' [] [(''fields'', ListV [Str ''field-1''])]"

abbreviation squery_search :: val where
  "squery_search \<equiv> Meth cluster_v ''search_query''
     [Str ''my-index-name'', App ''PrefixQuery'' [Str ''airports-''] [], squery_opts] []"

abbreviation squery_row :: "nat \<Rightarrow> val" where
  "squery_row i \<equiv> Item (Meth squery_search ''rows'' [] []) i"

abbreviation limit_opts :: val where
  "limit_opts \<equiv> App ''SearchOptions'' [] [(''skip'', Num 3), (''limit'', Num 4)]"

abbreviation upsert_v :: val where
  "upsert_v \<equiv> Meth collection_v ''upsert'' [Str ''key'', DictV []] []"

abbreviation mutation_state_v :: val where
  "mutation_state_v \<equiv> Meth (App ''MutationState'' [] []) ''add_results'' [upsert_v] []"

abbreviation ryow_opts :: val where
  "ryow_opts \<equiv> Meth (App ''SearchOptions'' [] []) ''consistent_with'' [mutation_state_v] []"

abbreviation highlight_opts :: val where
  "highlight_opts \<equiv> App ''SearchOptions'' []
     [(''highlight_style'', Attr (Name ''HighlightStyle'') ''HTML''),
      (''highlight_fields'', ListV [Str ''field1'', Str ''field2''])]"

abbreviation sort_opts :: val where
  "sort_opts \<equiv> App ''SearchOptions'' []
     [(''sort'', ListV [App ''SortScore'' [] [], App ''SortField'' [Str ''field''] []])]"

abbreviation facets_dict :: val where
  "facets_dict \<equiv> App ''dict'' [] [(''categories'', App ''TermFacet'' [Str ''category'', Num 5] [])]"

abbreviation facets_opts :: val where
  "facets_opts \<equiv> App ''SearchOptions'' [] [(''facets'', facets_dict)]"

abbreviation fields_opts :: val where
  "fields_opts \<equiv> App ''SearchOptions'' [] [(''fields'', ListV [Str ''field1'', Str ''field2''])]"

abbreviation hit_v :: "nat \<Rightarrow> val" where
  "hit_v i \<equiv> Item (Meth (search3 fields_opts) ''hits'' [] []) i"

abbreviation facet_v :: "nat \<Rightarrow> val" where
  "facet_v i \<equiv> Item (Meth (search3 fields_opts) ''facets'' [] []) i"

text \<open>The calls that the statements of each part of the body can make.\<close>

inductive_set connect_events :: "val set" where
  "auth_v \<in> connect_events"
| "App ''ClusterOptions'' [auth_v] [] \<in> connect_events"
| "cluster_v \<in> connect_events"
| "bucket_v \<in> connect_events"
| "collection_v \<in> connect_events"

inductive_set try_events :: "val set" where
  "query_string \<in> try_events"
| "search2 \<in> try_events"
| "Meth search2 ''rows'' [] [] \<in> try_events"
| "found_row i \<in> try_events"
| "App ''print'' [found_row i] [] \<in> try_events"
| "Meth search2 ''metadata'' [] [] \<in> try_events"
| "Meth (Meth search2 ''metadata'' [] []) ''metrics'' [] [] \<in> try_events"
| "total_rows_of search2 \<in> try_events"
| "reported_total \<in> try_events"
| "App ''print'' [reported_total] [] \<in> try_events"

inductive_set handler_events :: "val set" where
  "format_exc \<in> handler_events"
| "log_error \<in> handler_events"

inductive_set squery_events :: "val set" where
  "App ''PrefixQuery'' [Str ''airports-''] [] \<in> squery_events"
| "squery_opts \<in> squery_events"
| "squery_search \<in> squery_events"
| "Meth squery_search ''rows'' [] [] \<in> squery_events"
| "Meth (squery_row i) ''score'' [] [] \<in> squery_events"
| "Meth (Str ''Score: {}'') ''format'' [Meth (squery_row i) ''score'' [] []] [] \<in> squery_events"
| "App ''print'' [Meth (Str ''Score: {}'') ''format'' [Meth (squery_row i) ''score'' [] []] []] []
     \<in> squery_events"
| "Meth (squery_row i) ''id'' [] [] \<in> squery_events"
| "Meth (Str ''Document Id: {}'') ''format'' [Meth (squery_row i) ''id'' [] []] [] \<in> squery_events"
| "App ''print'' [Meth (Str ''Document Id: {}'') ''format'' [Meth (squery_row i) ''id'' [] []] []] []
     \<in> squery_events"
| "Meth (squery_row i) ''fields'' [] [] \<in> squery_events"
| "App ''print'' [Meth (squery_row i) ''fields'' [] []] [] \<in> squery_events"

inductive_set limit_events :: "val set" where
  "query_string \<in> limit_events"
| "limit_opts \<in> limit_events"
| "search3 limit_opts \<in> limit_events"

inductive_set ryow_events :: "val set" where
  "upsert_v \<in> ryow_events"
| "App ''MutationState'' [] [] \<in> ryow_events"
| "mutation_state_v \<in> ryow_events"
| "query_string \<in> ryow_events"
| "App ''SearchOptions'' [] [] \<in> ryow_events"
| "ryow_opts \<in> ryow_events"
| "search3 ryow_opts \<in> ryow_events"

inductive_set highlight_events :: "val set" where
  "query_string \<in> highlight_events"
| "Attr (Name ''HighlightStyle'') ''HTML'' \<in> highlight_events"
| "highlight_opts \<in> highlight_events"
| "search3 highlight_opts \<in> highlight_events"

inductive_set sort_events :: "val set" where
  "query_string \<in> sort_events"
| "App ''SortScore'' [] [] \<in> sort_events"
| "App ''SortField'' [Str ''field''] [] \<in> sort_events"
| "sort_opts \<in> sort_events"
| "search3 sort_opts \<in> sort_events"

inductive_set facets_events :: "val set" where
  "query_string \<in> facets_events"
| "App ''TermFacet'' [Str ''category'', Num 5] [] \<in> facets_events"
| "facets_dict \<in> facets_events"
| "facets_opts \<in> facets_events"
| "search3 facets_opts \<in> facets_events"

inductive_set fields_events :: "val set" where
  "query_string \<in> fields_events"
| "fields_opts \<in> fields_events"
| "search3 fields_opts \<in> fields_events"

inductive_set simpleresult_events :: "val set" where
  "Meth (search3 fields_opts) ''hits'' [] [] \<in> simpleresult_events"
| "Attr (hit_v i) ''id'' \<in> simpleresult_events"
| "Attr (hit_v i) ''score'' \<in> simpleresult_events"

inductive_set simplefacetresult_events :: "val set" where
  "Meth (search3 fields_opts) ''facets'' [] [] \<in> simplefacetresult_events"
| "Attr (facet_v i) ''name'' \<in> simplefacetresult_events"
| "Attr (facet_v i) ''total'' \<in> simplefacetresult_events"

text \<open>The calls after the try statement, and all the calls of the body.\<close>

definition later_events :: "val set" where
  "later_events =
     squery_events \<union> limit_events \<union> ryow_events \<union> highlight_events \<union> sort_events \<union>
     facets_events \<union> fields_events \<union> simpleresult_events \<union> simplefacetresult_events"

definition program_events :: "val set" where
  "program_events = connect_events \<union> try_events \<union> handler_events \<union> later_events"

text \<open>The statements after the try statement, and the statements before it.\<close>

definition later :: "lib \<Rightarrow> st \<Rightarrow> st" where
  "later L s =
     exec (simplefacetresult_snippet L (search3 fields_opts))
      (exec (simpleresult_snippet L (search3 fields_opts))
        (exec (fields_snippet L cluster_v)
          (exec (facets_snippet L cluster_v)
            (exec (sort_snippet L cluster_v)
              (exec (highlight_snippet L cluster_v)
                (exec (ryow_snippet L cluster_v collection_v)
                  (exec (limit_snippet L cluster_v)
                    (exec (squery_snippet L cluster_v) s))))))))"

definition connected :: "lib \<Rightarrow> st" where
  "connected L =
     step L collection_v (step L bucket_v (step L cluster_v
       (step L (App ''ClusterOptions'' [auth_v] []) (step L auth_v \<lparr>trace = [], raised = None\<rparr>))))"


section \<open>What the claims speak of\<close>

subsection \<open>Libraries for concrete runs\<close>

text \<open>
  A library in which no call raises and every iteration yields one item, and whose
  search results all carry one partition error in their metadata.
\<close>

definition one_row_lib :: lib where
  "one_row_lib = \<lparr>raises = (\<lambda>h e. None), yields = (\<lambda>h v. 1),
                   errors = (\<lambda>h r. [''partition unavailable''])\<rparr>"

subsection \<open>Search calls and their receiver\<close>

fun is_search :: "val \<Rightarrow> bool" where
  "is_search (Meth r m a k) = (m = ''search_query'')"
| "is_search _ = False"

fun by_connect :: "val \<Rightarrow> bool" where
  "by_connect (Meth (Name n) m a k) = (n = ''Cluster'' \<and> m = ''connect'')"
| "by_connect _ = False"

fun receiver :: "val \<Rightarrow> val option" where
  "receiver (Meth r m a k) = Some r"
| "receiver (Attr r a) = Some r"
| "receiver _ = None"

text \<open>A search call is on the cluster when its receiver is what \<^verbatim>\<open>Cluster.connect\<close> returned.\<close>

definition search_on_cluster :: "val \<Rightarrow> bool" where
  "search_on_cluster e =
     (is_search e \<longrightarrow> (case receiver e of Some r \<Rightarrow> by_connect r | None \<Rightarrow> False))"

text \<open>A library is quiet when none of its calls raises.\<close>

definition quiet :: "lib \<Rightarrow> bool" where
  "quiet L = (\<forall>h e. raises L h e = None)"

text \<open>The number of search calls of a run, and a run that goes on after \<open>n\<close> of them.\<close>

definition searches :: "st \<Rightarrow> nat" where
  "searches s = length (filter is_search (trace s))"

definition going :: "nat \<Rightarrow> st \<Rightarrow> bool" where
  "going n s = (raised s = None \<and> searches s = n)"

text \<open>The run of the body with \<open>one_row_lib\<close>, snippet by snippet.\<close>

definition connect_run :: "val list" where
  "connect_run = [auth_v, App ''ClusterOptions'' [auth_v] [], cluster_v, bucket_v, collection_v]"

definition simple_run :: "val list" where
  "simple_run =
     [query_string, search2, Meth search2 ''rows'' [] [],
      found_row 0, App ''print'' [found_row 0] [],
      Meth search2 ''metadata'' [] [], Meth (Meth search2 ''metadata'' [] []) ''metrics'' [] [],
      total_rows_of search2, reported_total, App ''print'' [reported_total] []]"

definition squery_run :: "val list" where
  "squery_run =
     [App ''PrefixQuery'' [Str ''airports-''] [], squery_opts, squery_search,
      Meth squery_search ''rows'' [] [],
      Meth (squery_row 0) ''score'' [] [],
      Meth (Str ''Score: {}'') ''format'' [Meth (squery_row 0) ''score'' [] []] [],
      App ''print'' [Meth (Str ''Score: {}'') ''format'' [Meth (squery_row 0) ''score'' [] []] []] [],
      Meth (squery_row 0) ''id'' [] [],
      Meth (Str ''Document Id: {}'') ''format'' [Meth (squery_row 0) ''id'' [] []] [],
      App ''print'' [Meth (Str ''Document Id: {}'') ''format'' [Meth (squery_row 0) ''id'' [] []] []] [],
      Meth (squery_row 0) ''fields'' [] [],
      App ''print'' [Meth (squery_row 0) ''fields'' [] []] []]"

definition limit_run :: "val list" where
  "limit_run = [query_string, limit_opts, search3 limit_opts]"

definition ryow_run :: "val list" where
  "ryow_run =
     [upsert_v, App ''MutationState'' [] [], mutation_state_v, query_string,
      App ''SearchOptions'' [] [], ryow_opts, search3 ryow_opts]"

definition highlight_run :: "val list" where
  "highlight_run =
     [query_string, Attr (Name ''HighlightStyle'') ''HTML'', highlight_opts, search3 highlight_opts]"

definition sort_run :: "val list" where
  "sort_run =
     [query_string, App ''SortScore'' [] [], App ''SortField'' [Str ''field''] [], sort_opts,
      search3 sort_opts]"

definition facets_run :: "val list" where
  "facets_run =
     [query_string, App ''TermFacet'' [Str ''category'', Num 5] [], facets_dict, facets_opts,
      search3 facets_opts]"

definition fields_run :: "val list" where
  "fields_run = [query_string, fields_opts, search3 fields_opts]"

definition simpleresult_run :: "val list" where
  "simpleresult_run =
     [Meth (search3 fields_opts) ''hits'' [] [], Attr (hit_v 0) ''id'', Attr (hit_v 0) ''score'']"

definition simplefacetresult_run :: "val list" where
  "simplefacetresult_run =
     [Meth (search3 fields_opts) ''facets'' [] [], Attr (facet_v 0) ''name'',
      Attr (facet_v 0) ''total'']"

definition one_row_run :: "val list" where
  "one_row_run =
     connect_run @ simple_run @ squery_run @ limit_run @ ryow_run @ highlight_run @ sort_run @
     facets_run @ fields_run @ simpleresult_run @ simplefacetresult_run"

text \<open>
  The calls after the try statement in such a run, and the run with a library whose
  search call of line 61 raises \<^verbatim>\<open>CouchbaseException\<close> and whose other calls return.
\<close>

definition later_run :: "val list" where
  "later_run =
     squery_run @ limit_run @ ryow_run @ highlight_run @ sort_run @ facets_run @ fields_run @
     simpleresult_run @ simplefacetresult_run"

definition failing_lib :: lib where
  "failing_lib =
     \<lparr>raises = (\<lambda>h e. if e = search2 then Some CouchbaseException else None),
      yields = (\<lambda>h v. 1), errors = (\<lambda>h r. [])\<rparr>"

definition failing_run :: "val list" where
  "failing_run = connect_run @ [query_string, search2, format_exc, log_error] @ later_run"

text \<open>
  A library is calm when every iteration yields one item and no call but the search call
  of line 61 raises.
\<close>

definition calm :: "lib \<Rightarrow> bool" where
  "calm L = ((\<forall>h v. yields L h v = 1) \<and> (\<forall>h e. e \<noteq> search2 \<longrightarrow> raises L h e = None))"

subsection \<open>Arguments of a search call\<close>

text \<open>
  The classes of query expressions, as the table of lines 98 to 116 names them.
\<close>

definition spec_query_kinds :: "string list" where
  "spec_query_kinds =
     [''QueryStringQuery'', ''MatchQuery'', ''MatchPhraseQuery'', ''PhraseQuery'',
      ''PrefixQuery'', ''RegexQuery'', ''TermQuery'', ''TermRangeQuery'', ''NumericRangeQuery'',
      ''DateRangeQuery'', ''ConjunctionQuery'', ''DisjunctionQuery'', ''WildcardQuery'',
      ''DocIdQuery'', ''BooleanFieldQuery'', ''MatchAllQuery'', ''MatchNoneQuery'',
      ''GeoBoundingBoxQuery'', ''GeoDistanceQuery'']"

fun is_str :: "val \<Rightarrow> bool" where
  "is_str (Str s) = True"
| "is_str _ = False"

fun is_num :: "val \<Rightarrow> bool" where
  "is_num (Num n) = True"
| "is_num _ = False"

fun is_app :: "val \<Rightarrow> bool" where
  "is_app (App n a k) = True"
| "is_app _ = False"

fun is_query_expr :: "val \<Rightarrow> bool" where
  "is_query_expr (App n a k) = (n \<in> set spec_query_kinds)"
| "is_query_expr _ = False"

fun index_and_query :: "val list \<Rightarrow> bool" where
  "index_and_query (i # q # rest) = (is_str i \<and> is_query_expr q)"
| "index_and_query _ = False"

text \<open>
  A search call gives an index name and a query expression; and an object of a class whose
  name ends in \<^verbatim>\<open>Query\<close> is of one of the listed classes.
\<close>

fun search_args_ok :: "val \<Rightarrow> bool" where
  "search_args_ok (Meth r m a k) = (m = ''search_query'' \<longrightarrow> index_and_query a \<and> k = [])"
| "search_args_ok (App n a k) = (suffix ''Query'' n \<longrightarrow> n \<in> set spec_query_kinds)"
| "search_args_ok _ = True"

subsection \<open>Members read from a result\<close>

fun is_result :: "val \<Rightarrow> bool" where
  "is_result (Meth r m a k) = (m = ''search_query'')"
| "is_result _ = False"

text \<open>A value is from a result when it is a search result or was read from one.\<close>

fun from_result :: "val \<Rightarrow> bool" where
  "from_result (Meth r m a k) = (m = ''search_query'' \<or> from_result r)"
| "from_result (Attr r a) = from_result r"
| "from_result (Item v i) = from_result v"
| "from_result _ = False"

fun member :: "val \<Rightarrow> string" where
  "member (Meth r m a k) = m"
| "member (Attr r a) = a"
| "member _ = []"

fun is_metadata :: "val \<Rightarrow> bool" where
  "is_metadata (Meth r m a k) = (is_result r \<and> m = ''metadata'')"
| "is_metadata _ = False"

text \<open>
  The members that the claim allows on a receiver: on a result its rows (\<^verbatim>\<open>rows\<close>,
  \<^verbatim>\<open>hits\<close>), its facets and its metadata; on a row the id, the score and the fields;
  on a facet the name and the total; on the metadata the total row count, which the
  library reaches by \<^verbatim>\<open>metrics().total_rows()\<close>.
\<close>

fun surface :: "val \<Rightarrow> string list" where
  "surface (Item (Meth r m a k) i) =
     (if is_result r \<and> (m = ''rows'' \<or> m = ''hits'') then [''id'', ''score'', ''fields'']
      else if is_result r \<and> m = ''facets'' then [''name'', ''total'']
      else [])"
| "surface (Meth r m a k) =
     (if m = ''search_query'' then [''rows'', ''hits'', ''facets'', ''metadata'']
      else if is_result r \<and> m = ''metadata'' then [''metrics'']
      else if is_metadata r \<and> m = ''metrics'' then [''total_rows'']
      else [])"
| "surface _ = []"

definition reads_ok :: "val \<Rightarrow> bool" where
  "reads_ok e = (case receiver e of
       Some r \<Rightarrow> from_result r \<longrightarrow> member e \<in> set (surface r)
     | None \<Rightarrow> True)"

subsection \<open>Options\<close>

text \<open>
  The option names of the table of lines 127 to 137; the constructor takes the highlight
  style and the highlight fields as two keywords.
\<close>

definition spec_options :: "string list" where
  "spec_options =
     [''limit'', ''skip'', ''explain'', ''scan_consistency'', ''consistent_with'',
      ''highlight'', ''highlight_style'', ''highlight_fields'', ''sort'', ''facets'', ''fields'',
      ''serializer'', ''raw'']"

text \<open>An options bundle is a \<^verbatim>\<open>SearchOptions\<close> object or the result of a method called on one.\<close>

fun is_options :: "val \<Rightarrow> bool" where
  "is_options (App n a k) = (n = ''SearchOptions'')"
| "is_options (Meth r m a k) = is_options r"
| "is_options _ = False"

fun str_list :: "val \<Rightarrow> bool" where
  "str_list (ListV xs) = list_all is_str xs"
| "str_list _ = False"

fun app_list :: "val \<Rightarrow> bool" where
  "app_list (ListV xs) = list_all is_app xs"
| "app_list _ = False"

fun highlight_style :: "val \<Rightarrow> bool" where
  "highlight_style (Attr (Name c) a) = (c = ''HighlightStyle'')"
| "highlight_style _ = False"

fun facet_map :: "val \<Rightarrow> bool" where
  "facet_map (App d a k) = (d = ''dict'' \<and> a = [] \<and> list_all (\<lambda>(n, f). is_app f) k)"
| "facet_map _ = False"

definition option_shape :: "string \<Rightarrow> val \<Rightarrow> bool" where
  "option_shape n v =
     (if n = ''skip'' \<or> n = ''limit'' then is_num v
      else if n = ''highlight_style'' then highlight_style v
      else if n = ''highlight_fields'' \<or> n = ''fields'' then str_list v
      else if n = ''sort'' then app_list v
      else if n = ''facets'' then facet_map v
      else True)"

fun options_ok :: "val \<Rightarrow> bool" where
  "options_ok (App n a k) =
     (n = ''SearchOptions'' \<longrightarrow>
        a = [] \<and> list_all (\<lambda>(n, v). n \<in> set spec_options \<and> option_shape n v) k)"
| "options_ok (Meth r m a k) =
     ((is_options r \<longrightarrow> m \<in> set spec_options \<and> k = []) \<and>
      (m = ''search_query'' \<longrightarrow> list_all is_options (drop 2 a)))"
| "options_ok _ = True"

subsection \<open>Where a call comes from\<close>

text \<open>
  The root of a call is the name at which its chain of receivers starts: an imported name,
  a builtin function, or the type of a literal.
\<close>

fun root :: "val \<Rightarrow> string" where
  "root (Name n) = n"
| "root (App n a k) = n"
| "root (Meth r m a k) = root r"
| "root (Attr r a) = root r"
| "root (Item v i) = root v"
| "root (Str s) = ''str''"
| "root (Num n) = ''int''"
| "root (ListV xs) = ''list''"
| "root (DictV kvs) = ''dict''"

fun callee :: "val \<Rightarrow> string" where
  "callee (App n a k) = n"
| "callee (Meth r m a k) = m"
| "callee (Attr r a) = a"
| "callee _ = []"

text \<open>
  The operations that the claim lists: establishing the connection, resolving the bucket
  and the collection, constructing query and options objects, invoking search, iterating
  results.
\<close>

definition operation_names :: "string list" where
  "operation_names =
     [''connect'', ''bucket'', ''default_collection'', ''QueryStringQuery'', ''PrefixQuery'',
      ''SearchOptions'', ''search_query'', ''rows'', ''hits'', ''facets'']"

text \<open>What is not of the client library: the standard library and the builtins.\<close>

definition python_names :: "string list" where
  "python_names = [''logging'', ''traceback'', ''print'', ''dict'', ''str'']"

definition pass_through :: "val \<Rightarrow> bool" where
  "pass_through e =
     ((callee e \<in> set operation_names \<longrightarrow> root e \<in> set couchbase_imports) \<and>
      (root e \<in> set couchbase_imports \<or> root e \<in> set python_names))"

subsection \<open>The asynchronous and reactive variants\<close>

text \<open>Lines 282 to 292 of the file.\<close>

definition reactive_fragment :: "string list" where
  \<open>reactive_fragment =
     [''# TODO: document async APIs?'',
      ''# #tag::simplereactive[]'',
      ''#   Mono<ReactiveSearchResult> result = cluster'',
      ''#     .reactive()'',
      ''#     .searchQuery("index", SearchQuery.queryString("query"));'',
      ''#'',
      ''#   result'',
      ''#     .flatMapMany(ReactiveSearchResult::rows)'',
      ''#     .subscribe(row -> System.out.println("Found row: " + row));'',
      ''#   // #end::simplereactive[]'',
      ''# }'']\<close>

text \<open>A line whose first character other than a space is \<^verbatim>\<open>#\<close> is a comment.\<close>

fun is_comment_line :: "string \<Rightarrow> bool" where
  "is_comment_line [] = False"
| "is_comment_line (c # cs) = (if c = CHR '' '' then is_comment_line cs else c = CHR ''#'')"

text \<open>
  The names of the asynchronous and reactive interface, from the fragment and from the
  prose of lines 355 to 390.
\<close>

definition reactive_names :: "string list" where
  "reactive_names =
     [''reactive'', ''searchQuery'', ''flatMapMany'', ''subscribe'', ''request'', ''process'',
      ''ReactiveCluster'', ''AsyncCluster'', ''ReactiveSearchResult'', ''Mono'',
      ''CompletableFuture'']"

definition blocking_only :: "val \<Rightarrow> bool" where
  "blocking_only e = (callee e \<notin> set reactive_names \<and> root e \<notin> set reactive_names)"

subsection \<open>Reading one's own writes\<close>

text \<open>
  The mutation state that a search call is made consistent with: the argument of
  \<^verbatim>\<open>consistent_with\<close> in the options of the call.
\<close>

fun consistent_state :: "val \<Rightarrow> val option" where
  "consistent_state (Meth so m [ms] k) = (if m = ''consistent_with'' then Some ms else None)"
| "consistent_state _ = None"

fun consistent_arg :: "val \<Rightarrow> val option" where
  "consistent_arg (Meth r m (i # q # opts # rest) k) =
     (if m = ''search_query'' then consistent_state opts else None)"
| "consistent_arg _ = None"

text \<open>
  The calls \<open>pre\<close> contain the upsert and, after it, the call that adds its result to
  a mutation state. A state reads its own writes when each of its consistent search calls
  comes after these two and is given that mutation state; \<open>written\<close> and \<open>added\<close> say
  how far a run that goes on has come.
\<close>

definition written_then_added :: "val list \<Rightarrow> bool" where
  "written_then_added pre = (\<exists>p1 p2 p3. pre = p1 @ upsert_v # p2 @ mutation_state_v # p3)"

definition reads_own_writes :: "st \<Rightarrow> bool" where
  "reads_own_writes s = (\<forall>pre e post ms. trace s = pre @ e # post \<longrightarrow> consistent_arg e = Some ms \<longrightarrow>
     ms = mutation_state_v \<and> written_then_added pre)"

definition written :: "st \<Rightarrow> bool" where
  "written s = (raised s = None \<longrightarrow> (\<exists>p1 p2. trace s = p1 @ upsert_v # p2))"

definition added :: "st \<Rightarrow> bool" where
  "added s = (raised s = None \<longrightarrow> written_then_added (trace s))"


subsection \<open>The text of the try statement\<close>

text \<open>Lines 60 to 68 of the file, as they are written.\<close>

definition simple_lines :: "string list" where
  \<open>simple_lines =
     [''        try:'',
      ''            result = cluster.search_query("index",'',
      ''                                          QueryStringQuery("query"))'',
      ''            for row in result.rows():'',
      ''                print("Found row {}".format(row)'',
      ''                print("Reported total rows: "'',
      ''                      + result.metadata().metrics().total_rows())'',
      ''        except CouchbaseException:'',
      ''            logging.error(traceback.format_exc())'']\<close>

text \<open>
  The brackets that are open after a line, given those open before it, as the tokenizer
  of Python counts them: a bracket inside a string literal does not count, and a comment
  ends the line. The flag says whether the scan is inside a string literal; the lines
  above have double-quoted literals only, without escapes.
\<close>

fun scan_line :: "bool \<Rightarrow> nat \<Rightarrow> string \<Rightarrow> nat" where
  "scan_line q d [] = d"
| "scan_line q d (c # cs) =
     (if q then scan_line (c \<noteq> CHR 0x22) d cs
      else if c = CHR 0x22 then scan_line True d cs
      else if c = CHR ''#'' then d
      else if c \<in> set ''([{'' then scan_line False (Suc d) cs
      else if c \<in> set '')]}'' then scan_line False (d - 1) cs
      else scan_line False d cs)"

definition open_after :: "string list \<Rightarrow> nat" where
  "open_after ls = foldl (scan_line False) 0 ls"

definition first_word :: "string \<Rightarrow> string" where
  "first_word l =
     takeWhile (\<lambda>c. c \<noteq> CHR '' '' \<and> c \<noteq> CHR '':'') (dropWhile (\<lambda>c. c = CHR '' '') l)"

text \<open>
  While a bracket is open the tokenizer joins the lines, and what is inside a bracket is
  an expression; a keyword that opens a clause of a statement cannot occur there. So a
  file compiles only if each line that starts with such a keyword starts with no bracket
  open.
\<close>

definition clause_keywords :: "string list" where
  "clause_keywords = [''try'', ''except'', ''finally'']"

fun clauses_closed :: "nat \<Rightarrow> string list \<Rightarrow> bool" where
  "clauses_closed d [] = True"
| "clauses_closed d (l # ls) =
     ((first_word l \<in> set clause_keywords \<longrightarrow> d = 0) \<and> clauses_closed (scan_line False d l) ls)"

text \<open>
  Running the file as it is written and then calling \<^verbatim>\<open>Search.__call__\<close>: Python
  compiles a file as a whole before it executes any statement of it.
\<close>

definition run_file :: "lib \<Rightarrow> string list \<Rightarrow> exn + st" where
  "run_file L args =
     (if clauses_closed 0 simple_lines then Inr (Search_call L args)
      else Inl (OtherException ''SyntaxError''))"

subsection \<open>Raising and handling\<close>

text \<open>
  A run is straight from its \<open>k\<close>-th call on when no call from there on has raised, but
  possibly the last one, whose exception is then in flight. A caught exception is handled
  when the calls that follow are those of the handler, \<^verbatim>\<open>traceback.format_exc\<close> and
  \<^verbatim>\<open>logging.error\<close>, and then the first call of the next snippet.
\<close>

abbreviation prefix_query :: val where
  "prefix_query \<equiv> App ''PrefixQuery'' [Str ''airports-''] []"

definition straight :: "lib \<Rightarrow> nat \<Rightarrow> st \<Rightarrow> bool" where
  "straight L k s =
     (k \<le> length (trace s) \<and> (length (trace s) = k \<longrightarrow> raised s = None) \<and>
      (\<forall>pre e post. trace s = pre @ e # post \<longrightarrow> k \<le> length pre \<longrightarrow>
         raises L pre e = (if post = [] then raised s else None)))"

definition handled :: "val list \<Rightarrow> bool" where
  "handled post = (post \<noteq> [] \<and> prefix (take 3 post) [format_exc, log_error, prefix_query])"

text \<open>
  An exception in flight was raised by a call of the body of the try statement; and the
  search call of line 61 is not the last call of a run with \<^verbatim>\<open>CouchbaseException\<close> in
  flight.
\<close>

definition last_in_try :: "st \<Rightarrow> bool" where
  "last_in_try s = (raised s \<noteq> None \<longrightarrow> (\<exists>pre e. trace s = pre @ [e] \<and> e \<in> try_events))"

definition search_not_pending :: "st \<Rightarrow> bool" where
  "search_not_pending s =
     (\<forall>pre. trace s = pre @ [search2] \<longrightarrow> raised s \<noteq> Some CouchbaseException)"


text \<open>No exception is in flight and the handler has not run.\<close>

definition unhandled :: "st \<Rightarrow> bool" where
  "unhandled s = (raised s = None \<and> format_exc \<notin> set (trace s))"

section \<open>Properties of runs\<close>

lemma run_call [simp]: "run_state (call L e) s = (e, step L e s)"
  by (simp add: call_def step_def)

lemma exec_call [simp]: "exec (call L e) s = step L e s"
  by (simp add: exec_def)

lemma exec_return [simp]: "exec (State_Monad.return x) s = s"
  by (simp add: exec_def)

lemma exec_bind [simp]: "exec (m \<bind> f) s = exec (f (fst (run_state m s))) (exec m s)"
  by (simp add: exec_def split: prod.splits)

lemma exec_loop_Nil [simp]: "exec (loop body []) s = s"
  by (simp add: exec_def)

lemma exec_loop_Cons: "exec (loop body (x # xs)) s = exec (loop body xs) (exec (body x) s)"
  by simp

lemma exec_for_in:
  "exec (for_in L v body) s = exec (loop body (map (Item v) [0 ..< yields L (trace s) v])) s"
  by (simp add: exec_def for_in_def)

lemma exec_try_except:
  "exec (try_except body E handler) s =
     (if raised s \<noteq> None then s
      else if raised (exec body s) = Some E then exec handler ((exec body s)\<lparr>raised := None\<rparr>)
      else exec body s)"
  by (simp add: exec_def try_except_def split: prod.splits)

subsection \<open>Invariants of a run\<close>

lemma inv_loop:
  assumes step: "\<And>x s. x \<in> set xs \<Longrightarrow> I s \<Longrightarrow> I (exec (body x) s)" and init: "I s"
  shows "I (exec (loop body xs) s)"
  using assms
proof (induction xs arbitrary: s)
  case Nil
  then show ?case by (simp only: exec_loop_Nil)
next
  case (Cons a xs)
  have "I (exec (body a) s)"
    by (rule Cons.prems(1)) (simp, rule Cons.prems(2))
  then have "I (exec (loop body xs) (exec (body a) s))"
    by (rule Cons.IH [rotated]) (rule Cons.prems(1), simp)
  then show ?case by (simp only: exec_loop_Cons)
qed

lemma inv_for_in:
  assumes "\<And>i s. I s \<Longrightarrow> I (exec (body (Item v i)) s)" and "I s"
  shows "I (exec (for_in L v body) s)"
  unfolding exec_for_in
proof (rule inv_loop)
  fix x s'
  assume "x \<in> set (map (Item v) [0..<yields L (trace s) v])" and "I s'"
  then obtain i where "x = Item v i" by auto
  with \<open>I s'\<close> show "I (exec (body x) s')" using assms(1) by blast
qed (rule assms(2))

lemma inv_try:
  assumes body: "I s \<Longrightarrow> I (exec body s)"
    and clear: "\<And>s. I s \<Longrightarrow> raised s = Some E \<Longrightarrow> I (s\<lparr>raised := None\<rparr>)"
    and handler: "\<And>s. I s \<Longrightarrow> I (exec handler s)"
    and init: "I s"
  shows "I (exec (try_except body E handler) s)"
proof (cases "raised s = None")
  case False
  then have "exec (try_except body E handler) s = s"
    by (simp add: exec_try_except)
  then show ?thesis
    using init by (simp only:)
next
  case True
  show ?thesis
  proof (cases "raised (exec body s) = Some E")
    case caught: True
    have eq: "exec (try_except body E handler) s = exec handler ((exec body s)\<lparr>raised := None\<rparr>)"
      using True caught by (simp add: exec_try_except)
    have "I ((exec body s)\<lparr>raised := None\<rparr>)"
      by (rule clear) (rule body, rule init, rule caught)
    then have "I (exec handler ((exec body s)\<lparr>raised := None\<rparr>))"
      by (rule handler)
    then show ?thesis
      unfolding eq .
  next
    case False
    have eq: "exec (try_except body E handler) s = exec body s"
      using True False by (simp add: exec_try_except)
    show ?thesis
      unfolding eq by (rule body) (rule init)
  qed
qed

text \<open>
  An invariant that every call of a part of the body keeps is kept by that part.
\<close>

lemma simple_try_inv:
  assumes body: "\<And>e s. e \<in> try_events \<Longrightarrow> I s \<Longrightarrow> I (step L e s)" and init: "I s"
  shows "I (exec (simple_try L cluster_v) s)"
  unfolding simple_try_def
  apply simp
  apply (rule inv_for_in)
   apply simp
   apply (intro body try_events.intros, assumption)
  apply (intro body try_events.intros, rule init)
  done

lemma simple_except_inv:
  assumes handler: "\<And>e s. e \<in> handler_events \<Longrightarrow> I s \<Longrightarrow> I (step L e s)" and init: "I s"
  shows "I (exec (simple_except L) s)"
  unfolding simple_except_def
  apply simp
  apply (intro handler handler_events.intros, rule init)
  done

lemma simple_inv:
  assumes body: "\<And>e s. e \<in> try_events \<Longrightarrow> I s \<Longrightarrow> I (step L e s)"
    and clear: "\<And>s. I s \<Longrightarrow> raised s = Some CouchbaseException \<Longrightarrow> I (s\<lparr>raised := None\<rparr>)"
    and handler: "\<And>e s. e \<in> handler_events \<Longrightarrow> I s \<Longrightarrow> I (step L e s)"
    and init: "I s"
  shows "I (exec (simple_snippet L cluster_v) s)"
  unfolding simple_snippet_def
  apply (rule inv_try [where I = I])
     apply (rule simple_try_inv, rule body, assumption, assumption, assumption)
    apply (rule clear, assumption, assumption)
   apply (rule simple_except_inv, rule handler, assumption, assumption, assumption)
  apply (rule init)
  done

lemma squery_inv:
  assumes step: "\<And>e s. e \<in> squery_events \<Longrightarrow> I s \<Longrightarrow> I (step L e s)" and init: "I s"
  shows "I (exec (squery_snippet L cluster_v) s)"
  unfolding squery_snippet_def
  apply simp
  apply (rule inv_for_in)
   apply simp
   apply (intro step squery_events.intros, assumption)
  apply (intro step squery_events.intros, rule init)
  done

lemma limit_inv:
  assumes step: "\<And>e s. e \<in> limit_events \<Longrightarrow> I s \<Longrightarrow> I (step L e s)" and init: "I s"
  shows "I (exec (limit_snippet L cluster_v) s)"
  unfolding limit_snippet_def
  apply simp
  apply (intro step limit_events.intros, rule init)
  done

lemma ryow_inv:
  assumes step: "\<And>e s. e \<in> ryow_events \<Longrightarrow> I s \<Longrightarrow> I (step L e s)" and init: "I s"
  shows "I (exec (ryow_snippet L cluster_v collection_v) s)"
  unfolding ryow_snippet_def
  apply simp
  apply (intro step ryow_events.intros, rule init)
  done

lemma highlight_inv:
  assumes step: "\<And>e s. e \<in> highlight_events \<Longrightarrow> I s \<Longrightarrow> I (step L e s)" and init: "I s"
  shows "I (exec (highlight_snippet L cluster_v) s)"
  unfolding highlight_snippet_def
  apply simp
  apply (intro step highlight_events.intros, rule init)
  done

lemma sort_inv:
  assumes step: "\<And>e s. e \<in> sort_events \<Longrightarrow> I s \<Longrightarrow> I (step L e s)" and init: "I s"
  shows "I (exec (sort_snippet L cluster_v) s)"
  unfolding sort_snippet_def
  apply simp
  apply (intro step sort_events.intros, rule init)
  done

lemma facets_inv:
  assumes step: "\<And>e s. e \<in> facets_events \<Longrightarrow> I s \<Longrightarrow> I (step L e s)" and init: "I s"
  shows "I (exec (facets_snippet L cluster_v) s)"
  unfolding facets_snippet_def
  apply simp
  apply (intro step facets_events.intros, rule init)
  done

lemma fields_inv:
  assumes step: "\<And>e s. e \<in> fields_events \<Longrightarrow> I s \<Longrightarrow> I (step L e s)" and init: "I s"
  shows "I (exec (fields_snippet L cluster_v) s)"
  unfolding fields_snippet_def
  apply simp
  apply (intro step fields_events.intros, rule init)
  done

lemma fields_value: "fst (run_state (fields_snippet L c) s) = Meth c ''search_query''
    [Str ''index'', App ''QueryStringQuery'' [Str ''query''] [],
     App ''SearchOptions'' [] [(''fields'', ListV [Str ''field1'', Str ''field2''])]] []"
  by (simp add: fields_snippet_def split: prod.splits)

lemma simpleresult_inv:
  assumes step: "\<And>e s. e \<in> simpleresult_events \<Longrightarrow> I s \<Longrightarrow> I (step L e s)" and init: "I s"
  shows "I (exec (simpleresult_snippet L (search3 fields_opts)) s)"
  unfolding simpleresult_snippet_def
  apply simp
  apply (rule inv_for_in)
   apply simp
   apply (intro step simpleresult_events.intros, assumption)
  apply (intro step simpleresult_events.intros, rule init)
  done

lemma simplefacetresult_inv:
  assumes step: "\<And>e s. e \<in> simplefacetresult_events \<Longrightarrow> I s \<Longrightarrow> I (step L e s)"
    and init: "I s"
  shows "I (exec (simplefacetresult_snippet L (search3 fields_opts)) s)"
  unfolding simplefacetresult_snippet_def
  apply simp
  apply (rule inv_for_in)
   apply simp
   apply (intro step simplefacetresult_events.intros, assumption)
  apply (intro step simplefacetresult_events.intros, rule init)
  done

lemma Search_call_exec: "Search_call L args = exec (Search_body L args) \<lparr>trace = [], raised = None\<rparr>"
  by (simp add: Search_call_def exec_def)

lemma Search_call_parts:
  "Search_call L args = later L (exec (simple_snippet L cluster_v) (connected L))"
  unfolding Search_call_exec Search_body_def later_def connected_def
  by (simp add: fields_value)

lemma later_inv:
  assumes step: "\<And>e s. e \<in> later_events \<Longrightarrow> I s \<Longrightarrow> I (step L e s)" and init: "I s"
  shows "I (later L s)"
proof -
  have s: "\<And>e s. e \<in> squery_events \<or> e \<in> limit_events \<or> e \<in> ryow_events \<or>
      e \<in> highlight_events \<or> e \<in> sort_events \<or> e \<in> facets_events \<or> e \<in> fields_events \<or>
      e \<in> simpleresult_events \<or> e \<in> simplefacetresult_events \<Longrightarrow> I s \<Longrightarrow> I (step L e s)"
    by (rule step) (auto simp: later_events_def)
  show ?thesis
    unfolding later_def
    apply (rule simplefacetresult_inv, rule s, blast, assumption)
    apply (rule simpleresult_inv, rule s, blast, assumption)
    apply (rule fields_inv, rule s, blast, assumption)
    apply (rule facets_inv, rule s, blast, assumption)
    apply (rule sort_inv, rule s, blast, assumption)
    apply (rule highlight_inv, rule s, blast, assumption)
    apply (rule ryow_inv, rule s, blast, assumption)
    apply (rule limit_inv, rule s, blast, assumption)
    apply (rule squery_inv, rule s, blast, assumption)
    apply (rule init)
    done
qed

lemma connect_inv:
  assumes step: "\<And>e s. e \<in> connect_events \<Longrightarrow> I s \<Longrightarrow> I (step L e s)"
    and init: "I \<lparr>trace = [], raised = None\<rparr>"
  shows "I (connected L)"
  unfolding connected_def
  by (intro step connect_events.intros, rule init)

lemma Search_call_inv:
  assumes step: "\<And>e s. e \<in> program_events \<Longrightarrow> I s \<Longrightarrow> I (step L e s)"
    and clear: "\<And>s. I s \<Longrightarrow> raised s = Some CouchbaseException \<Longrightarrow> I (s\<lparr>raised := None\<rparr>)"
    and init: "I \<lparr>trace = [], raised = None\<rparr>"
  shows "I (Search_call L args)"
  unfolding Search_call_parts
  apply (rule later_inv)
   apply (rule step, simp add: program_events_def, assumption)
  apply (rule simple_inv)
     apply (rule step, simp add: program_events_def, assumption)
    apply (rule clear, assumption, assumption)
   apply (rule step, simp add: program_events_def, assumption)
  apply (rule connect_inv)
   apply (rule step, simp add: program_events_def, assumption)
  apply (rule init)
  done

subsection \<open>The calls a run can contain\<close>

lemma Search_call_events: "set (trace (Search_call L args)) \<subseteq> program_events"
  by (rule Search_call_inv) (auto simp: step_def)

lemmas events_cases =
  connect_events.cases try_events.cases handler_events.cases squery_events.cases
  limit_events.cases ryow_events.cases highlight_events.cases sort_events.cases
  facets_events.cases fields_events.cases simpleresult_events.cases
  simplefacetresult_events.cases

lemma program_events_parts:
  "e \<in> program_events \<Longrightarrow>
   e \<in> connect_events \<or> e \<in> try_events \<or> e \<in> handler_events \<or> e \<in> squery_events \<or>
   e \<in> limit_events \<or> e \<in> ryow_events \<or> e \<in> highlight_events \<or> e \<in> sort_events \<or>
   e \<in> facets_events \<or> e \<in> fields_events \<or> e \<in> simpleresult_events \<or>
   e \<in> simplefacetresult_events"
  by (auto simp: program_events_def later_events_def)

subsection \<open>Counting the search calls of a run in which nothing raises\<close>

lemma going_other: "quiet L \<Longrightarrow> \<not> is_search e \<Longrightarrow> going n s \<Longrightarrow> going n (step L e s)"
  by (simp add: going_def quiet_def step_def searches_def)

lemma going_search: "quiet L \<Longrightarrow> is_search e \<Longrightarrow> going n s \<Longrightarrow> going (Suc n) (step L e s)"
  by (simp add: going_def quiet_def step_def searches_def)

lemma limit_going:
  assumes "quiet L" "going n s"
  shows "going (Suc n) (exec (limit_snippet L c) s)"
  unfolding limit_snippet_def
  apply simp
  apply (rule going_search [OF assms(1)], simp)
  apply (intro going_other [OF assms(1)] assms(2); simp)
  done

lemma squery_going:
  assumes "quiet L" "going n s"
  shows "going (Suc n) (exec (squery_snippet L c) s)"
  unfolding squery_snippet_def
  apply simp
  apply (rule inv_for_in)
   apply simp
   apply (intro going_other [OF assms(1)]; simp)
  apply (rule going_other [OF assms(1)], simp)
  apply (rule going_search [OF assms(1)], simp)
  apply (intro going_other [OF assms(1)] assms(2); simp)
  done


lemma ryow_going:
  assumes "quiet L" "going n s"
  shows "going (Suc n) (exec (ryow_snippet L c coll) s)"
  unfolding ryow_snippet_def
  apply simp
  apply (rule going_search [OF assms(1)], simp)
  apply (intro going_other [OF assms(1)] assms(2); simp)
  done

lemma highlight_going:
  assumes "quiet L" "going n s"
  shows "going (Suc n) (exec (highlight_snippet L c) s)"
  unfolding highlight_snippet_def
  apply simp
  apply (rule going_search [OF assms(1)], simp)
  apply (intro going_other [OF assms(1)] assms(2); simp)
  done

lemma sort_going:
  assumes "quiet L" "going n s"
  shows "going (Suc n) (exec (sort_snippet L c) s)"
  unfolding sort_snippet_def
  apply simp
  apply (rule going_search [OF assms(1)], simp)
  apply (intro going_other [OF assms(1)] assms(2); simp)
  done

lemma facets_going:
  assumes "quiet L" "going n s"
  shows "going (Suc n) (exec (facets_snippet L c) s)"
  unfolding facets_snippet_def
  apply simp
  apply (rule going_search [OF assms(1)], simp)
  apply (intro going_other [OF assms(1)] assms(2); simp)
  done

lemma fields_going:
  assumes "quiet L" "going n s"
  shows "going (Suc n) (exec (fields_snippet L c) s)"
  unfolding fields_snippet_def
  apply simp
  apply (rule going_search [OF assms(1)], simp)
  apply (intro going_other [OF assms(1)] assms(2); simp)
  done

lemma simpleresult_going:
  assumes "quiet L" "going n s"
  shows "going n (exec (simpleresult_snippet L r) s)"
  unfolding simpleresult_snippet_def
  apply simp
  apply (rule inv_for_in)
   apply simp
   apply (intro going_other [OF assms(1)]; simp)
  apply (intro going_other [OF assms(1)] assms(2); simp)
  done

lemma simplefacetresult_going:
  assumes "quiet L" "going n s"
  shows "going n (exec (simplefacetresult_snippet L r) s)"
  unfolding simplefacetresult_snippet_def
  apply simp
  apply (rule inv_for_in)
   apply simp
   apply (intro going_other [OF assms(1)]; simp)
  apply (intro going_other [OF assms(1)] assms(2); simp)
  done

lemma try_going:
  "going m (exec body s) \<Longrightarrow> going n s \<Longrightarrow> going m (exec (try_except body E h) s)"
  by (simp add: exec_try_except going_def)

lemma simple_going:
  assumes "quiet L" "going n s"
  shows "going (Suc n) (exec (simple_snippet L c) s)"
  unfolding simple_snippet_def simple_try_def
  apply (rule try_going [OF _ assms(2)])
  apply simp
  apply (rule inv_for_in)
   apply simp
   apply (intro going_other [OF assms(1)]; simp)
  apply (rule going_other [OF assms(1)], simp)
  apply (rule going_search [OF assms(1)], simp)
  apply (intro going_other [OF assms(1)] assms(2); simp)
  done

lemma Search_call_going_Suc:
  assumes "quiet L"
  shows "going (Suc (Suc (Suc (Suc (Suc (Suc (Suc (Suc 0)))))))) (Search_call L args)"
  unfolding Search_call_exec Search_body_def
  apply (simp add: fields_value)
  apply (rule simplefacetresult_going [OF assms])
  apply (rule simpleresult_going [OF assms])
  apply (intro fields_going facets_going sort_going highlight_going ryow_going limit_going
      squery_going simple_going assms)
  apply (intro going_other [OF assms]; simp add: going_def searches_def)
  done

lemma Search_call_going: "quiet L \<Longrightarrow> going 8 (Search_call L args)"
  using Search_call_going_Suc [of L args] by (simp add: eval_nat_numeral)


subsection \<open>Runs with one row per iteration\<close>

lemma step_calm:
  "calm L \<Longrightarrow> e \<noteq> search2 \<Longrightarrow> raised s = None \<Longrightarrow> step L e s = s\<lparr>trace := trace s @ [e]\<rparr>"
  by (simp add: step_def calm_def)

lemma yields_calm: "calm L \<Longrightarrow> yields L h v = 1"
  by (simp add: calm_def)

lemma calm_one_row: "calm one_row_lib"
  by (simp add: calm_def one_row_lib_def)

lemma calm_failing: "calm failing_lib"
  by (simp add: calm_def failing_lib_def)

lemma quiet_one_row: "quiet one_row_lib"
  by (simp add: quiet_def one_row_lib_def)

lemma squery_calm:
  "calm L \<Longrightarrow> raised s = None \<Longrightarrow>
   exec (squery_snippet L cluster_v) s = s\<lparr>trace := trace s @ squery_run\<rparr>"
  by (simp add: squery_snippet_def exec_for_in step_calm yields_calm squery_run_def)

lemma limit_calm:
  "calm L \<Longrightarrow> raised s = None \<Longrightarrow>
   exec (limit_snippet L cluster_v) s = s\<lparr>trace := trace s @ limit_run\<rparr>"
  by (simp add: limit_snippet_def step_calm limit_run_def)

lemma ryow_calm:
  "calm L \<Longrightarrow> raised s = None \<Longrightarrow>
   exec (ryow_snippet L cluster_v collection_v) s = s\<lparr>trace := trace s @ ryow_run\<rparr>"
  by (simp add: ryow_snippet_def step_calm ryow_run_def)

lemma highlight_calm:
  "calm L \<Longrightarrow> raised s = None \<Longrightarrow>
   exec (highlight_snippet L cluster_v) s = s\<lparr>trace := trace s @ highlight_run\<rparr>"
  by (simp add: highlight_snippet_def step_calm highlight_run_def)

lemma sort_calm:
  "calm L \<Longrightarrow> raised s = None \<Longrightarrow>
   exec (sort_snippet L cluster_v) s = s\<lparr>trace := trace s @ sort_run\<rparr>"
  by (simp add: sort_snippet_def step_calm sort_run_def)

lemma facets_calm:
  "calm L \<Longrightarrow> raised s = None \<Longrightarrow>
   exec (facets_snippet L cluster_v) s = s\<lparr>trace := trace s @ facets_run\<rparr>"
  by (simp add: facets_snippet_def step_calm facets_run_def)

lemma fields_calm:
  "calm L \<Longrightarrow> raised s = None \<Longrightarrow>
   exec (fields_snippet L cluster_v) s = s\<lparr>trace := trace s @ fields_run\<rparr>"
  by (simp add: fields_snippet_def step_calm fields_run_def)

lemma simpleresult_calm:
  "calm L \<Longrightarrow> raised s = None \<Longrightarrow>
   exec (simpleresult_snippet L (search3 fields_opts)) s
     = s\<lparr>trace := trace s @ simpleresult_run\<rparr>"
  by (simp add: simpleresult_snippet_def exec_for_in step_calm yields_calm simpleresult_run_def)

lemma simplefacetresult_calm:
  "calm L \<Longrightarrow> raised s = None \<Longrightarrow>
   exec (simplefacetresult_snippet L (search3 fields_opts)) s
     = s\<lparr>trace := trace s @ simplefacetresult_run\<rparr>"
  by (simp add: simplefacetresult_snippet_def exec_for_in step_calm yields_calm
      simplefacetresult_run_def)

lemma later_calm:
  "calm L \<Longrightarrow> raised s = None \<Longrightarrow> later L s = s\<lparr>trace := trace s @ later_run\<rparr>"
  by (simp add: later_def squery_calm limit_calm ryow_calm highlight_calm sort_calm facets_calm
      fields_calm simpleresult_calm simplefacetresult_calm later_run_def)

lemma connected_calm: "calm L \<Longrightarrow> connected L = \<lparr>trace = connect_run, raised = None\<rparr>"
  by (simp add: connected_def step_calm connect_run_def)

lemma simple_one_row:
  "raised s = None \<Longrightarrow>
   exec (simple_snippet one_row_lib cluster_v) s = s\<lparr>trace := trace s @ simple_run\<rparr>"
  by (simp add: simple_snippet_def simple_try_def exec_try_except exec_for_in step_def
      one_row_lib_def simple_run_def)

lemma Search_call_one_row:
  "Search_call one_row_lib [] = \<lparr>trace = one_row_run, raised = None\<rparr>"
  unfolding Search_call_parts
  by (simp add: connected_calm simple_one_row later_calm calm_one_row one_row_run_def
      later_run_def)

lemma try_failing:
  "raised s = None \<Longrightarrow>
   exec (simple_try failing_lib cluster_v) s
     = s\<lparr>trace := trace s @ [query_string, search2], raised := Some CouchbaseException\<rparr>"
  by (simp add: simple_try_def exec_for_in step_def failing_lib_def)

lemma simple_failing:
  "raised s = None \<Longrightarrow>
   exec (simple_snippet failing_lib cluster_v) s
     = s\<lparr>trace := trace s @ [query_string, search2, format_exc, log_error]\<rparr>"
  by (simp add: simple_snippet_def exec_try_except try_failing simple_except_def step_calm
      calm_failing)

lemma Search_call_failing:
  "Search_call failing_lib [] = \<lparr>trace = failing_run, raised = None\<rparr>"
  unfolding Search_call_parts
  by (simp add: connected_calm simple_failing later_calm calm_failing failing_run_def)

subsection \<open>What the predicates on calls reject\<close>

lemma search_on_cluster_rejects_bucket:
  "\<not> search_on_cluster (Meth bucket_v ''search_query'' [Str ''index'', query_string] [])"
  by (simp add: search_on_cluster_def)

lemma search_args_ok_rejects:
  "\<not> search_args_ok (Meth cluster_v ''search_query'' [query_string] [])"
  "\<not> search_args_ok (Meth cluster_v ''search_query'' [Str ''index'', Str ''query''] [])"
  "\<not> search_args_ok (App ''FuzzyQuery'' [Str ''query''] [])"
  by (simp_all add: spec_query_kinds_def suffix_to_prefix)

lemma reads_ok_rejects:
  "\<not> reads_ok (Meth (Meth search2 ''metadata'' [] []) ''errors'' [] [])"
  "\<not> reads_ok (Meth (squery_row 0) ''explanation'' [] [])"
  by (simp_all add: reads_ok_def)

lemma options_ok_rejects:
  "\<not> options_ok (App ''SearchOptions'' [] [(''timeout'', Num 5)])"
  "\<not> options_ok (App ''SearchOptions'' [] [(''limit'', Str ''4'')])"
  "\<not> options_ok (Meth (App ''SearchOptions'' [] []) ''timeout'' [Num 5] [])"
  by (simp_all add: spec_options_def option_shape_def)

lemma pass_through_rejects:
  "\<not> pass_through (App ''my_helper'' [cluster_v] [])"
  "\<not> pass_through (Meth (Name ''requests'') ''connect'' [] [])"
  by (simp_all add: pass_through_def operation_names_def couchbase_imports_def python_names_def)

lemma blocking_only_rejects:
  "\<not> blocking_only (Meth cluster_v ''reactive'' [] [])"
  "\<not> blocking_only (Meth (squery_row 0) ''request'' [Num 10] [])"
  by (simp_all add: blocking_only_def reactive_names_def)

subsection \<open>The write, the mutation state and the consistent read\<close>

lemma snoc_eq_split:
  "tr @ [x] = pre @ e # post \<Longrightarrow>
   (post = [] \<and> pre = tr \<and> e = x) \<or> (\<exists>post'. post = post' @ [x] \<and> tr = pre @ e # post')"
  by (cases post rule: rev_cases) auto

lemma row_step:
  assumes "consistent_arg x = None" "reads_own_writes s"
  shows "reads_own_writes (step L x s)"
proof (cases "raised s = None")
  case False
  then show ?thesis using assms(2) by (simp add: step_def)
next
  case True
  show ?thesis
    unfolding reads_own_writes_def
  proof (intro allI impI)
    fix pre e post ms
    assume t: "trace (step L x s) = pre @ e # post" and c: "consistent_arg e = Some ms"
    from t True have "trace s @ [x] = pre @ e # post"
      by (simp add: step_def)
    from snoc_eq_split [OF this] c assms(1)
    obtain post' where "trace s = pre @ e # post'"
      by auto
    with assms(2) c show "ms = mutation_state_v \<and> written_then_added pre"
      unfolding reads_own_writes_def by blast
  qed
qed

lemma row_step_search:
  assumes "reads_own_writes s" "added s"
  shows "reads_own_writes (step L (search3 ryow_opts) s)"
proof (cases "raised s = None")
  case False
  then show ?thesis using assms(1) by (simp add: step_def)
next
  case True
  show ?thesis
    unfolding reads_own_writes_def
  proof (intro allI impI)
    fix pre e post ms
    assume t: "trace (step L (search3 ryow_opts) s) = pre @ e # post"
      and c: "consistent_arg e = Some ms"
    from t True have "trace s @ [search3 ryow_opts] = pre @ e # post"
      by (simp add: step_def)
    from snoc_eq_split [OF this]
    show "ms = mutation_state_v \<and> written_then_added pre"
    proof (elim disjE conjE exE)
      assume "pre = trace s" "e = search3 ryow_opts"
      with c assms(2) True show ?thesis
        by (simp add: added_def)
    next
      fix post'
      assume "trace s = pre @ e # post'"
      with assms(1) c show ?thesis
        unfolding reads_own_writes_def by blast
    qed
  qed
qed

lemma written_upsert: "written (step L upsert_v s)"
proof (cases "raised s = None")
  case False
  then show ?thesis by (auto simp: written_def step_def)
next
  case True
  have "trace s @ [upsert_v] = trace s @ upsert_v # []"
    by simp
  then have "\<exists>p1 p2. trace s @ [upsert_v] = p1 @ upsert_v # p2"
    by blast
  with True show ?thesis
    by (simp add: written_def step_def)
qed

lemma written_step:
  assumes "written s"
  shows "written (step L x s)"
proof (cases "raised s = None")
  case False
  then show ?thesis by (auto simp: written_def step_def)
next
  case True
  with assms obtain p1 p2 where "trace s = p1 @ upsert_v # p2"
    unfolding written_def by blast
  then have "trace s @ [x] = p1 @ upsert_v # (p2 @ [x])"
    by simp
  then have "\<exists>p1 p2. trace s @ [x] = p1 @ upsert_v # p2"
    by blast
  with True show ?thesis
    by (simp add: written_def step_def)
qed

lemma added_state:
  assumes "written s"
  shows "added (step L mutation_state_v s)"
proof (cases "raised s = None")
  case False
  then show ?thesis by (auto simp: added_def step_def)
next
  case True
  with assms obtain p1 p2 where "trace s = p1 @ upsert_v # p2"
    unfolding written_def by blast
  then have "trace s @ [mutation_state_v] = p1 @ upsert_v # p2 @ mutation_state_v # []"
    by simp
  then have "written_then_added (trace s @ [mutation_state_v])"
    unfolding written_then_added_def by blast
  with True show ?thesis
    by (simp add: added_def step_def)
qed

lemma added_step:
  assumes "added s"
  shows "added (step L x s)"
proof (cases "raised s = None")
  case False
  then show ?thesis by (auto simp: added_def step_def)
next
  case True
  with assms obtain p1 p2 p3 where "trace s = p1 @ upsert_v # p2 @ mutation_state_v # p3"
    unfolding added_def written_then_added_def by blast
  then have "trace s @ [x] = p1 @ upsert_v # p2 @ mutation_state_v # (p3 @ [x])"
    by simp
  then have "written_then_added (trace s @ [x])"
    unfolding written_then_added_def by blast
  with True show ?thesis
    by (simp add: added_def step_def)
qed

lemma ryow_reads_own_writes:
  assumes "reads_own_writes s"
  shows "reads_own_writes (exec (ryow_snippet L cluster_v collection_v) s)"
  unfolding ryow_snippet_def
  apply simp
  apply (rule row_step_search)
   apply (intro row_step assms; simp)
  apply (rule added_step)
  apply (rule added_step)
  apply (rule added_step)
  apply (rule added_state)
  apply (rule written_step)
  apply (rule written_upsert)
  done


lemma other_events_not_consistent:
  "e \<in> connect_events \<or> e \<in> try_events \<or> e \<in> handler_events \<or> e \<in> squery_events \<or>
   e \<in> limit_events \<or> e \<in> highlight_events \<or> e \<in> sort_events \<or> e \<in> facets_events \<or>
   e \<in> fields_events \<or> e \<in> simpleresult_events \<or> e \<in> simplefacetresult_events \<Longrightarrow>
   consistent_arg e = None"
  by (elim disjE; erule events_cases; simp)

lemma row_other:
  "e \<in> connect_events \<or> e \<in> try_events \<or> e \<in> handler_events \<or> e \<in> squery_events \<or>
   e \<in> limit_events \<or> e \<in> highlight_events \<or> e \<in> sort_events \<or> e \<in> facets_events \<or>
   e \<in> fields_events \<or> e \<in> simpleresult_events \<or> e \<in> simplefacetresult_events \<Longrightarrow>
   reads_own_writes s \<Longrightarrow> reads_own_writes (step L e s)"
  by (rule row_step) (rule other_events_not_consistent)

lemma row_clear: "reads_own_writes s \<Longrightarrow> reads_own_writes (s\<lparr>raised := None\<rparr>)"
  by (simp add: reads_own_writes_def)

lemma Search_call_reads_own_writes: "reads_own_writes (Search_call L args)"
  unfolding Search_call_parts later_def
  apply (rule simplefacetresult_inv, rule row_other, blast, assumption)
  apply (rule simpleresult_inv, rule row_other, blast, assumption)
  apply (rule fields_inv, rule row_other, blast, assumption)
  apply (rule facets_inv, rule row_other, blast, assumption)
  apply (rule sort_inv, rule row_other, blast, assumption)
  apply (rule highlight_inv, rule row_other, blast, assumption)
  apply (rule ryow_reads_own_writes)
  apply (rule limit_inv, rule row_other, blast, assumption)
  apply (rule squery_inv, rule row_other, blast, assumption)
  apply (rule simple_inv)
     apply (rule row_other, blast, assumption)
    apply (rule row_clear, assumption)
   apply (rule row_other, blast, assumption)
  apply (rule connect_inv)
   apply (rule row_other, blast, assumption)
  apply (simp add: reads_own_writes_def)
  done


subsection \<open>The brackets of the try statement\<close>

lemma closing_line_64_compiles:
  "clauses_closed 0 (simple_lines [4 := simple_lines ! 4 @ '')''])"
  by (simp add: simple_lines_def first_word_def clause_keywords_def)

subsection \<open>Exceptions: the one handler\<close>

lemma straight_step:
  assumes "straight L k s"
  shows "straight L k (step L y s)"
proof (cases "raised s = None")
  case False
  then show ?thesis using assms by (simp add: step_def)
next
  case True
  have t: "trace (step L y s) = trace s @ [y]" and r: "raised (step L y s) = raises L (trace s) y"
    using True by (simp_all add: step_def)
  have k: "k \<le> length (trace s)"
    using assms by (simp add: straight_def)
  show ?thesis
    unfolding straight_def t r
  proof (intro conjI allI impI)
    show "k \<le> length (trace s @ [y])" using k by simp
    show "raises L (trace s) y = None" if "length (trace s @ [y]) = k"
      using that k by simp
    fix pre e post
    assume d: "trace s @ [y] = pre @ e # post" and kp: "k \<le> length pre"
    from snoc_eq_split [OF d]
    show "raises L pre e = (if post = [] then raises L (trace s) y else None)"
    proof (elim disjE conjE exE)
      assume "post = []" "pre = trace s" "e = y"
      then show ?thesis by simp
    next
      fix post'
      assume p: "post = post' @ [y]" and "trace s = pre @ e # post'"
      with assms kp have "raises L pre e = (if post' = [] then raised s else None)"
        unfolding straight_def by blast
      with True p show ?thesis by simp
    qed
  qed
qed

lemma straight_init: "straight L 0 \<lparr>trace = [], raised = None\<rparr>"
  by (simp add: straight_def)

lemma straight_clear: "straight L (length (trace s)) (s\<lparr>raised := None\<rparr>)"
  by (simp add: straight_def)

lemma straight_raise:
  assumes "straight L k s" "trace s = pre @ e # post" "k \<le> length pre" "raises L pre e = Some x"
  shows "post = [] \<and> raised s = Some x"
proof -
  from assms have "(if post = [] then raised s else None) = Some x"
    unfolding straight_def by metis
  then show ?thesis
    by (simp split: if_splits)
qed


lemma later_skip:
  assumes "raised s \<noteq> None"
  shows "later L s = s"
proof (rule later_inv [where I = "\<lambda>s'. s' = s"])
  fix e s'
  assume "s' = s"
  with assms show "step L e s' = s" by (simp add: step_def)
qed simp

lemma later_straight: "straight L k s \<Longrightarrow> straight L k (later L s)"
  by (rule later_inv) (rule straight_step)

lemma grows_step: "prefix t (trace s) \<Longrightarrow> prefix t (trace (step L e s))"
  by (auto simp: step_def)

lemma squery_starts:
  "prefix (trace (step L prefix_query s)) (trace (exec (squery_snippet L cluster_v) s))"
  unfolding squery_snippet_def
  apply simp
  apply (rule inv_for_in [where I = "\<lambda>s'. prefix (trace (step L prefix_query s)) (trace s')"])
   apply simp
   apply (intro grows_step, assumption)
  apply (rule grows_step)
  apply (rule grows_step)
  apply (rule grows_step)
  apply (rule prefix_order.refl)
  done

lemma later_starts: "prefix (trace (step L prefix_query s)) (trace (later L s))"
  unfolding later_def
  apply (rule simplefacetresult_inv, rule grows_step, assumption)
  apply (rule simpleresult_inv, rule grows_step, assumption)
  apply (rule fields_inv, rule grows_step, assumption)
  apply (rule facets_inv, rule grows_step, assumption)
  apply (rule sort_inv, rule grows_step, assumption)
  apply (rule highlight_inv, rule grows_step, assumption)
  apply (rule ryow_inv, rule grows_step, assumption)
  apply (rule limit_inv, rule grows_step, assumption)
  apply (rule squery_starts)
  done

lemma connected_straight: "straight L 0 (connected L)"
  by (rule connect_inv) (rule straight_step, assumption, rule straight_init)

lemma last_in_try_step: "e \<in> try_events \<Longrightarrow> last_in_try s \<Longrightarrow> last_in_try (step L e s)"
  by (auto simp: last_in_try_def step_def)

lemma try_last:
  assumes "raised s = None"
  shows "last_in_try (exec (simple_try L cluster_v) s)"
  by (rule simple_try_inv) (rule last_in_try_step, assumption, assumption,
      simp add: last_in_try_def assms)

lemma try_straight: "straight L k s \<Longrightarrow> straight L k (exec (simple_try L cluster_v) s)"
  by (rule simple_try_inv) (rule straight_step)

lemma except_straight: "straight L k s \<Longrightarrow> straight L k (exec (simple_except L) s)"
  by (rule simple_except_inv) (rule straight_step)

lemma handled_after:
  assumes "raised b = None"
  shows "\<exists>post. trace (later L (exec (simple_except L) b)) = trace b @ post \<and> handled post"
proof -
  let ?h1 = "step L format_exc b"
  let ?h2 = "step L log_error ?h1"
  have e: "exec (simple_except L) b = ?h2"
    by (simp add: simple_except_def)
  have t1: "trace ?h1 = trace b @ [format_exc]"
    using assms by (simp add: step_def)
  show ?thesis
  proof (cases "raised ?h2 = None")
    case False
    then have "later L ?h2 = ?h2"
      by (rule later_skip)
    moreover have "trace ?h2 = trace b @ [format_exc] \<or> trace ?h2 = trace b @ [format_exc, log_error]"
      using t1 by (auto simp: step_def)
    ultimately show ?thesis
      unfolding e by (auto simp: handled_def)
  next
    case True
    then have r1: "raised ?h1 = None"
      by (auto simp: step_def split: if_splits)
    have "trace ?h2 = trace b @ [format_exc, log_error]"
      using t1 r1 by (simp add: step_def)
    with True have "trace (step L prefix_query ?h2) = trace b @ [format_exc, log_error, prefix_query]"
      by (simp add: step_def)
    with later_starts [of L ?h2]
    obtain rest where "trace (later L ?h2) = (trace b @ [format_exc, log_error, prefix_query]) @ rest"
      by (auto simp: prefix_def)
    then have "trace (later L ?h2) = trace b @ (format_exc # log_error # prefix_query # rest)"
      by simp
    moreover have "handled (format_exc # log_error # prefix_query # rest)"
      by (simp add: handled_def)
    ultimately show ?thesis
      unfolding e by blast
  qed
qed


lemma append_eq_split_left:
  assumes "pre @ e # post = tb @ post0" "length pre < length tb"
  shows "\<exists>mid. tb = pre @ e # mid \<and> post = mid @ post0"
proof -
  from assms(1) obtain us where "pre = tb @ us \<and> us @ e # post = post0 \<or>
      pre @ us = tb \<and> e # post = us @ post0"
    unfolding append_eq_append_conv2 by blast
  then have u: "pre @ us = tb" "e # post = us @ post0"
    using assms(2) by auto
  with assms(2) have "us \<noteq> []" by auto
  then obtain mid where "us = e # mid" "post = mid @ post0"
    using u(2) by (cases us) auto
  with u(1) show ?thesis by auto
qed

lemma simple_cases:
  obtains (skipped) "raised s \<noteq> None" "exec (simple_snippet L cluster_v) s = s"
  | (passed) "raised s = None" "raised (exec (simple_try L cluster_v) s) \<noteq> Some CouchbaseException"
      "exec (simple_snippet L cluster_v) s = exec (simple_try L cluster_v) s"
  | (caught) "raised s = None" "raised (exec (simple_try L cluster_v) s) = Some CouchbaseException"
      "exec (simple_snippet L cluster_v) s
         = exec (simple_except L) ((exec (simple_try L cluster_v) s)\<lparr>raised := None\<rparr>)"
  unfolding simple_snippet_def exec_try_except by (cases "raised s = None") auto

lemma raise_final_or_handled:
  assumes d: "trace (Search_call L args) = pre @ e # post" and r: "raises L pre e = Some x"
  shows "(post = [] \<and> raised (Search_call L args) = Some x) \<or>
         (x = CouchbaseException \<and> e \<in> try_events \<and> handled post)"
proof (cases rule: simple_cases [where s = "connected L" and L = L])
  case skipped
  then have "Search_call L args = connected L"
    by (simp add: Search_call_parts later_skip)
  with connected_straight [of L] have "straight L 0 (Search_call L args)"
    by simp
  from straight_raise [OF this d _ r] show ?thesis by simp
next
  case passed
  have "straight L 0 (exec (simple_try L cluster_v) (connected L))"
    by (rule try_straight) (rule connected_straight)
  then have "straight L 0 (Search_call L args)"
    unfolding Search_call_parts passed(3) by (rule later_straight)
  from straight_raise [OF this d _ r] show ?thesis by simp
next
  case caught
  let ?b = "exec (simple_try L cluster_v) (connected L)"
  let ?c = "?b\<lparr>raised := None\<rparr>"
  have f: "Search_call L args = later L (exec (simple_except L) ?c)"
    unfolding Search_call_parts caught(3) ..
  have sb: "straight L 0 ?b"
    by (rule try_straight) (rule connected_straight)
  have "straight L (length (trace ?b)) ?c"
    using straight_clear [of L ?b] by simp
  then have sf: "straight L (length (trace ?b)) (Search_call L args)"
    unfolding f by (intro later_straight except_straight)
  from handled_after [of ?c L] obtain post0
    where t: "trace (Search_call L args) = trace ?b @ post0" and h: "handled post0"
    unfolding f by auto
  from try_last [OF caught(1), of L] caught(2) obtain pre0 e0
    where l: "trace ?b = pre0 @ [e0]" "e0 \<in> try_events"
    unfolding last_in_try_def by auto
  show ?thesis
  proof (cases "length (trace ?b) \<le> length pre")
    case True
    from straight_raise [OF sf d True r] show ?thesis by simp
  next
    case False
    with d t have "pre @ e # post = trace ?b @ post0" "length pre < length (trace ?b)"
      by simp_all
    from append_eq_split_left [OF this] obtain mid
      where m: "trace ?b = pre @ e # mid" "post = mid @ post0"
      by blast
    from straight_raise [OF sb m(1) _ r] have "mid = []" "raised ?b = Some x"
      by simp_all
    with m l caught(2) h show ?thesis by auto
  qed
qed

lemma connected_events: "set (trace (connected L)) \<subseteq> connect_events"
  by (rule connect_inv) (auto simp: step_def)

lemma search2_not_connect: "search2 \<notin> connect_events"
  by (auto elim: connect_events.cases)

lemma search2_not_later: "e \<in> later_events \<Longrightarrow> e \<noteq> search2"
  unfolding later_events_def by (elim UnE; erule events_cases; simp)

lemma search_not_pending_later:
  "e \<in> later_events \<Longrightarrow> search_not_pending s \<Longrightarrow> search_not_pending (step L e s)"
  using search2_not_later [of e] by (auto simp: search_not_pending_def step_def)

lemma search_not_pending_simple: "search_not_pending (exec (simple_snippet L cluster_v) (connected L))"
proof (cases rule: simple_cases [where s = "connected L" and L = L])
  case skipped
  have "\<And>pre. trace (connected L) \<noteq> pre @ [search2]"
    using connected_events [of L] search2_not_connect by auto
  then show ?thesis
    unfolding skipped(2) search_not_pending_def by blast
next
  case passed
  then show ?thesis
    by (simp add: search_not_pending_def)
next
  case caught
  let ?c = "(exec (simple_try L cluster_v) (connected L))\<lparr>raised := None\<rparr>"
  have "trace (exec (simple_except L) ?c) = trace ?c @ [format_exc] \<or>
        trace (exec (simple_except L) ?c) = trace ?c @ [format_exc, log_error]"
    by (auto simp: simple_except_def step_def)
  then show ?thesis
    unfolding caught(3) search_not_pending_def by auto
qed

lemma search_not_pending_final: "search_not_pending (Search_call L args)"
  unfolding Search_call_parts
  by (rule later_inv) (rule search_not_pending_later, assumption, assumption,
      rule search_not_pending_simple)

subsection \<open>The error list of a result\<close>

lemma call_errors [simp]: "call (L\<lparr>errors := f\<rparr>) e = call L e"
  by (simp add: call_def cong: if_cong)

lemma for_in_errors [simp]: "for_in (L\<lparr>errors := f\<rparr>) v body = for_in L v body"
  by (simp add: for_in_def)

lemma Search_body_errors: "Search_body (L\<lparr>errors := f\<rparr>) args = Search_body L args"
  by (simp add: Search_body_def simple_snippet_def simple_try_def simple_except_def
      squery_snippet_def limit_snippet_def ryow_snippet_def highlight_snippet_def
      sort_snippet_def facets_snippet_def fields_snippet_def simpleresult_snippet_def
      simplefacetresult_snippet_def)

lemma never_reads_errors: "e \<in> program_events \<Longrightarrow> callee e \<noteq> ''errors''"
  by (drule program_events_parts) (elim disjE; erule events_cases; simp)

lemma not_format_exc:
  "e \<in> connect_events \<or> e \<in> try_events \<or> e \<in> later_events \<Longrightarrow> e \<noteq> format_exc"
  unfolding later_events_def by (elim disjE UnE; erule events_cases; simp)

lemma unhandled_step:
  "quiet L \<Longrightarrow> e \<in> connect_events \<or> e \<in> try_events \<or> e \<in> later_events \<Longrightarrow>
   unhandled s \<Longrightarrow> unhandled (step L e s)"
  using not_format_exc [of e] by (auto simp: unhandled_def step_def quiet_def)

lemma quiet_unhandled:
  assumes "quiet L"
  shows "unhandled (Search_call L args)"
proof -
  have c: "unhandled (connected L)"
    by (rule connect_inv) (rule unhandled_step [OF assms], blast, assumption,
        simp add: unhandled_def)
  then have t: "unhandled (exec (simple_try L cluster_v) (connected L))"
    by (rule simple_try_inv [rotated]) (rule unhandled_step [OF assms], blast, assumption)
  have "exec (simple_snippet L cluster_v) (connected L) = exec (simple_try L cluster_v) (connected L)"
    using c t by (simp add: simple_snippet_def exec_try_except unhandled_def)
  with t show ?thesis
    unfolding Search_call_parts
    by (intro later_inv [where I = unhandled]) (rule unhandled_step [OF assms], blast, assumption, simp)
qed

section \<open>The claims\<close>

text \<open>
  C9, as amended. Every call of \<^verbatim>\<open>search_query\<close> that a run makes has as receiver the
  value returned by \<^verbatim>\<open>Cluster.connect\<close>, never the bucket or the collection; and a run
  in which no call raises makes eight such calls, one per call site of the file (lines
  61, 149, 168, 197, 218, 237, 257 and 275), whatever the iterations yield.
\<close>

theorem search_query_on_cluster:
  "(\<forall>e \<in> set (trace (Search_call L args)). search_on_cluster e) \<and>
   (quiet L \<longrightarrow> searches (Search_call L args) = 8)"
proof
  show "\<forall>e \<in> set (trace (Search_call L args)). search_on_cluster e"
  proof
    fix e
    assume "e \<in> set (trace (Search_call L args))"
    then have "e \<in> program_events"
      using Search_call_events by blast
    then show "search_on_cluster e"
      by - (drule program_events_parts,
        (elim disjE; erule events_cases; simp add: search_on_cluster_def))
  qed
  show "quiet L \<longrightarrow> searches (Search_call L args) = 8"
    using Search_call_going [of L args] by (simp add: going_def)
qed

theorem search_query_on_cluster_witness:
  "search2 \<in> set (trace (Search_call one_row_lib [])) \<and> is_search search2 \<and>
   search_on_cluster search2 \<and>
   quiet one_row_lib \<and> searches (Search_call one_row_lib []) = 8"
  using search_query_on_cluster [of one_row_lib "[]"] quiet_one_row
  by (simp add: Search_call_one_row one_row_run_def simple_run_def)

text \<open>
  C9 as stated speaks of seven search calls. The run with \<open>one_row_lib\<close>, in which every
  statement of the body is executed, makes eight.
\<close>

theorem seven_search_calls_counterexample:
  "searches (Search_call one_row_lib []) = 8 \<and> searches (Search_call one_row_lib []) \<noteq> 7"
  using Search_call_going [OF quiet_one_row, of "[]"] by (simp add: going_def)

text \<open>
  C1. Every call of \<^verbatim>\<open>search_query\<close> that a run makes gives an index name, a string, as
  its first argument and a query expression as its second, and every query expression
  that a run constructs is of one of the listed kinds.
\<close>

theorem search_gives_index_and_query:
  "e \<in> set (trace (Search_call L args)) \<Longrightarrow> search_args_ok e"
proof -
  assume "e \<in> set (trace (Search_call L args))"
  then have "e \<in> program_events"
    using Search_call_events by blast
  then show "search_args_ok e"
      by - (drule program_events_parts,
        (elim disjE; erule events_cases; simp add: spec_query_kinds_def suffix_to_prefix))
qed

theorem search_gives_index_and_query_witness:
  "squery_search \<in> set (trace (Search_call one_row_lib [])) \<and>
   member squery_search = ''search_query'' \<and> search_args_ok squery_search \<and>
   query_string \<in> set (trace (Search_call one_row_lib [])) \<and>
   suffix ''Query'' ''QueryStringQuery'' \<and> search_args_ok query_string"
  using search_gives_index_and_query [of squery_search one_row_lib "[]"]
    search_gives_index_and_query [of query_string one_row_lib "[]"]
  by (simp add: Search_call_one_row one_row_run_def connect_run_def simple_run_def squery_run_def
      suffix_to_prefix)

text \<open>
  C3. Whatever a run reads from a search result is within the listed surface: the rows
  (by \<^verbatim>\<open>rows\<close> or \<^verbatim>\<open>hits\<close>), the facets and the metadata of the result; the id, the
  score and the fields of a row; the name and the total of a facet; the total row count
  of the metadata.
\<close>

theorem reads_within_surface:
  "e \<in> set (trace (Search_call L args)) \<Longrightarrow> reads_ok e"
proof -
  assume "e \<in> set (trace (Search_call L args))"
  then have "e \<in> program_events"
    using Search_call_events by blast
  then show "reads_ok e"
      by - (drule program_events_parts,
        (elim disjE; erule events_cases; simp add: reads_ok_def))
qed

theorem reads_within_surface_witness:
  "Meth (squery_row 0) ''fields'' [] [] \<in> set (trace (Search_call one_row_lib [])) \<and>
   from_result (squery_row 0) \<and> reads_ok (Meth (squery_row 0) ''fields'' [] []) \<and>
   Attr (facet_v 0) ''total'' \<in> set (trace (Search_call one_row_lib [])) \<and>
   from_result (facet_v 0) \<and> reads_ok (Attr (facet_v 0) ''total'') \<and>
   total_rows_of search2 \<in> set (trace (Search_call one_row_lib [])) \<and>
   reads_ok (total_rows_of search2)"
  using reads_within_surface [of "Meth (squery_row 0) ''fields'' [] []" one_row_lib "[]"]
    reads_within_surface [of "Attr (facet_v 0) ''total''" one_row_lib "[]"]
    reads_within_surface [of "total_rows_of search2" one_row_lib "[]"]
  by (simp add: Search_call_one_row one_row_run_def connect_run_def simple_run_def squery_run_def
      limit_run_def ryow_run_def highlight_run_def sort_run_def facets_run_def fields_run_def
      simpleresult_run_def simplefacetresult_run_def)

text \<open>
  C4. Every options bundle that a run builds is a \<^verbatim>\<open>SearchOptions\<close> object made with
  keywords of the listed option names only, or the result of a method of a listed name
  called on one: skip and limit are integers, the highlight style comes with a list of
  field names, the sort specification is a list, the facets are a map from a name to a
  facet, the fields are a list of field names. What a search call is given after the
  index and the query is such a bundle.
\<close>

theorem options_within_list:
  "e \<in> set (trace (Search_call L args)) \<Longrightarrow> options_ok e"
proof -
  assume "e \<in> set (trace (Search_call L args))"
  then have "e \<in> program_events"
    using Search_call_events by blast
  then show "options_ok e"
      by - (drule program_events_parts,
        (elim disjE; erule events_cases; simp add: spec_options_def option_shape_def))
qed

theorem options_within_list_witness:
  "limit_opts \<in> set (trace (Search_call one_row_lib [])) \<and> options_ok limit_opts \<and>
   ryow_opts \<in> set (trace (Search_call one_row_lib [])) \<and>
   is_options (App ''SearchOptions'' [] []) \<and> options_ok ryow_opts \<and>
   search3 facets_opts \<in> set (trace (Search_call one_row_lib [])) \<and>
   options_ok (search3 facets_opts)"
  using options_within_list [of limit_opts one_row_lib "[]"]
    options_within_list [of ryow_opts one_row_lib "[]"]
    options_within_list [of "search3 facets_opts" one_row_lib "[]"]
  by (simp add: Search_call_one_row one_row_run_def connect_run_def simple_run_def squery_run_def
      limit_run_def ryow_run_def highlight_run_def sort_run_def facets_run_def)

text \<open>
  C7. Every call that a run makes is a call of a name that the file imports from the
  couchbase client library, or of a method or attribute of a value obtained from such a
  call; the exceptions are the calls of the standard library and of the builtins
  (\<^verbatim>\<open>print\<close>, \<^verbatim>\<open>format\<close>, \<^verbatim>\<open>+\<close>, \<^verbatim>\<open>dict\<close>, \<^verbatim>\<open>logging.error\<close>,
  \<^verbatim>\<open>traceback.format_exc\<close>). The operations that the claim lists (connecting,
  resolving the bucket and the collection, constructing queries and options, searching,
  iterating results) are all of the first kind.
\<close>

theorem calls_pass_through:
  "e \<in> set (trace (Search_call L args)) \<Longrightarrow> pass_through e"
proof -
  assume "e \<in> set (trace (Search_call L args))"
  then have "e \<in> program_events"
    using Search_call_events by blast
  then show "pass_through e"
      by - (drule program_events_parts,
        (elim disjE; erule events_cases; simp add: pass_through_def operation_names_def couchbase_imports_def python_names_def))
qed

theorem calls_pass_through_witness:
  "Meth squery_search ''rows'' [] [] \<in> set (trace (Search_call one_row_lib [])) \<and>
   callee (Meth squery_search ''rows'' [] []) \<in> set operation_names \<and>
   root (Meth squery_search ''rows'' [] []) = ''Cluster'' \<and>
   pass_through (Meth squery_search ''rows'' [] []) \<and>
   App ''print'' [reported_total] [] \<in> set (trace (Search_call one_row_lib [])) \<and>
   root (App ''print'' [reported_total] []) \<notin> set couchbase_imports \<and>
   pass_through (App ''print'' [reported_total] [])"
  using calls_pass_through [of "Meth squery_search ''rows'' [] []" one_row_lib "[]"]
    calls_pass_through [of "App ''print'' [reported_total] []" one_row_lib "[]"]
  by (simp add: Search_call_one_row one_row_run_def connect_run_def simple_run_def squery_run_def
      operation_names_def couchbase_imports_def)

text \<open>
  C8. The lines of the reactive fragment (282 to 292) are comments, and no call that a run
  makes is a call of the asynchronous or reactive interface or a request for a batch of
  rows.
\<close>

theorem reactive_only_in_comments:
  "list_all is_comment_line reactive_fragment \<and>
   (\<forall>e \<in> set (trace (Search_call L args)). blocking_only e)"
proof
  show "list_all is_comment_line reactive_fragment"
    by (simp add: reactive_fragment_def)
  show "\<forall>e \<in> set (trace (Search_call L args)). blocking_only e"
  proof
    fix e
    assume "e \<in> set (trace (Search_call L args))"
    then have "e \<in> program_events"
      using Search_call_events by blast
    then show "blocking_only e"
      by - (drule program_events_parts,
        (elim disjE; erule events_cases; simp add: blocking_only_def reactive_names_def))
  qed
qed

theorem reactive_only_in_comments_witness:
  "list_all is_comment_line reactive_fragment \<and>
   Meth search2 ''rows'' [] [] \<in> set (trace (Search_call one_row_lib [])) \<and>
   blocking_only (Meth search2 ''rows'' [] [])"
  using reactive_only_in_comments [of one_row_lib "[]"]
  by (simp add: Search_call_one_row one_row_run_def connect_run_def simple_run_def)

text \<open>
  C5. Wherever a run makes a search call with a \<^verbatim>\<open>consistent_with\<close> option, the
  mutation state given is \<^verbatim>\<open>MutationState().add_results(mutation_result)\<close> for the
  result of the upsert, and before the search call the run has made first the upsert and
  then the call of \<^verbatim>\<open>add_results\<close>: the write precedes the consistent read.
\<close>

theorem write_precedes_consistent_read:
  "trace (Search_call L args) = pre @ e # post \<Longrightarrow> consistent_arg e = Some ms \<Longrightarrow>
   ms = mutation_state_v \<and> (\<exists>p1 p2 p3. pre = p1 @ upsert_v # p2 @ mutation_state_v # p3)"
  using Search_call_reads_own_writes [of L args]
  unfolding reads_own_writes_def written_then_added_def by blast

theorem write_precedes_consistent_read_witness:
  "trace (Search_call one_row_lib []) =
     (connect_run @ simple_run @ squery_run @ limit_run @
      [upsert_v, App ''MutationState'' [] [], mutation_state_v, query_string,
       App ''SearchOptions'' [] [], ryow_opts]) @
     search3 ryow_opts #
     (highlight_run @ sort_run @ facets_run @ fields_run @ simpleresult_run @
      simplefacetresult_run) \<and>
   consistent_arg (search3 ryow_opts) = Some mutation_state_v \<and>
   (\<exists>p1 p2 p3. connect_run @ simple_run @ squery_run @ limit_run @
      [upsert_v, App ''MutationState'' [] [], mutation_state_v, query_string,
       App ''SearchOptions'' [] [], ryow_opts] = p1 @ upsert_v # p2 @ mutation_state_v # p3)"
proof -
  have t: "trace (Search_call one_row_lib []) =
     (connect_run @ simple_run @ squery_run @ limit_run @
      [upsert_v, App ''MutationState'' [] [], mutation_state_v, query_string,
       App ''SearchOptions'' [] [], ryow_opts]) @
     search3 ryow_opts #
     (highlight_run @ sort_run @ facets_run @ fields_run @ simpleresult_run @
      simplefacetresult_run)"
    by (simp add: Search_call_one_row one_row_run_def ryow_run_def)
  have c: "consistent_arg (search3 ryow_opts) = Some mutation_state_v"
    by simp
  from write_precedes_consistent_read [OF t c] t c show ?thesis
    by blast
qed


text \<open>
  C10. The file as written is not valid Python. The bracket that the print call of line
  64 opens is open at the end of the line and is still open when the except clause of
  line 67 starts (the numbers of open brackets after lines 60 to 68 are 0, 1, 0, 0, 1,
  2, 1, 1, 1), so the except clause stands inside a bracket, the file does not compile,
  and running it raises a syntax error before any statement of it is executed.
\<close>

theorem unclosed_bracket_line_64:
  "map (\<lambda>n. open_after (take n simple_lines)) [1, 2, 3, 4, 5, 6, 7, 8, 9]
     = [0, 1, 0, 0, 1, 2, 1, 1, 1] \<and>
   \<not> clauses_closed 0 simple_lines \<and>
   run_file L args = Inl (OtherException ''SyntaxError'')"
proof -
  have d: "map (\<lambda>n. open_after (take n simple_lines)) [1, 2, 3, 4, 5, 6, 7, 8, 9]
     = [0, 1, 0, 0, 1, 2, 1, 1, 1]"
    by (simp add: open_after_def simple_lines_def)
  have c: "\<not> clauses_closed 0 simple_lines"
    by (simp add: simple_lines_def first_word_def clause_keywords_def)
  from c have "run_file L args = Inl (OtherException ''SyntaxError'')"
    by (simp add: run_file_def)
  with d c show ?thesis
    by blast
qed

theorem unclosed_bracket_line_64_witness:
  "first_word (simple_lines ! 7) \<in> set clause_keywords \<and>
   open_after (take 7 simple_lines) \<noteq> 0 \<and>
   run_file one_row_lib [] = Inl (OtherException ''SyntaxError'')"
  using unclosed_bracket_line_64 [of one_row_lib "[]"]
  by (simp add: simple_lines_def first_word_def clause_keywords_def)

text \<open>
  C2. The body has one error-handling construct, the try statement around the search call
  of line 61, and it catches \<^verbatim>\<open>CouchbaseException\<close> only. In every run, a call that
  raises either ends the run, its exception leaving \<^verbatim>\<open>Search.__call__\<close>, or it is a
  call of the body of the try statement that raised \<^verbatim>\<open>CouchbaseException\<close>; then
  the calls that follow are \<^verbatim>\<open>traceback.format_exc\<close>, \<^verbatim>\<open>logging.error\<close> of its
  result and the first call of the next snippet, so the handler logs, and neither retries
  nor recovers. When the search call of line 61 raises \<^verbatim>\<open>CouchbaseException\<close>, it is
  handled so.
\<close>

theorem one_handler_logs_only:
  assumes "trace (Search_call L args) = pre @ e # post" and "raises L pre e = Some x"
  shows "((post = [] \<and> raised (Search_call L args) = Some x) \<or>
          (x = CouchbaseException \<and> e \<in> try_events \<and> handled post)) \<and>
         (e = search2 \<longrightarrow> x = CouchbaseException \<longrightarrow> handled post)"
proof
  show m: "(post = [] \<and> raised (Search_call L args) = Some x) \<or>
      (x = CouchbaseException \<and> e \<in> try_events \<and> handled post)"
    using assms by (rule raise_final_or_handled)
  show "e = search2 \<longrightarrow> x = CouchbaseException \<longrightarrow> handled post"
  proof (intro impI)
    assume "e = search2" "x = CouchbaseException"
    with m assms(1) search_not_pending_final [of L args] show "handled post"
      unfolding search_not_pending_def by auto
  qed
qed

theorem one_handler_logs_only_witness:
  "trace (Search_call failing_lib []) =
     (connect_run @ [query_string]) @ search2 # (format_exc # log_error # later_run) \<and>
   raises failing_lib (connect_run @ [query_string]) search2 = Some CouchbaseException \<and>
   search2 \<in> try_events \<and>
   handled (format_exc # log_error # later_run) \<and>
   raised (Search_call failing_lib []) = None"
proof -
  have t: "trace (Search_call failing_lib []) =
     (connect_run @ [query_string]) @ search2 # (format_exc # log_error # later_run)"
    by (simp add: Search_call_failing failing_run_def)
  have r: "raises failing_lib (connect_run @ [query_string]) search2 = Some CouchbaseException"
    by (simp add: failing_lib_def)
  from one_handler_logs_only [OF t r] t r show ?thesis
    by (simp add: Search_call_failing try_events.intros)
qed

text \<open>
  C6. A search call that returns may carry a non-empty error list in the metadata of its
  result (partial success), and the program misses it: the run is the same whatever the
  error lists of the library are, no call of a run reads an error list, and in a run in
  which no call raises the handler is not entered and no exception leaves
  \<^verbatim>\<open>Search.__call__\<close>. With \<open>one_row_lib\<close> the search call of line 61 returns
  with one partition error, and the run ends so.
\<close>

theorem partial_failure_unnoticed:
  "Search_call (L\<lparr>errors := f\<rparr>) args = Search_call L args \<and>
   (\<forall>c \<in> set (trace (Search_call L args)). callee c \<noteq> ''errors'') \<and>
   (quiet L \<longrightarrow>
      raised (Search_call L args) = None \<and> format_exc \<notin> set (trace (Search_call L args)))"
proof (intro conjI ballI impI)
  show "Search_call (L\<lparr>errors := f\<rparr>) args = Search_call L args"
    by (simp add: Search_call_def Search_body_errors)
next
  fix c
  assume "c \<in> set (trace (Search_call L args))"
  then have "c \<in> program_events"
    using Search_call_events by blast
  then show "callee c \<noteq> ''errors''"
    by (rule never_reads_errors)
next
  assume "quiet L"
  then show "raised (Search_call L args) = None"
    using quiet_unhandled [of L args] by (simp add: unhandled_def)
next
  assume "quiet L"
  then show "format_exc \<notin> set (trace (Search_call L args))"
    using quiet_unhandled [of L args] by (simp add: unhandled_def)
qed

theorem partial_failure_unnoticed_witness:
  "quiet one_row_lib \<and>
   search2 \<in> set (trace (Search_call one_row_lib [])) \<and>
   raises one_row_lib (connect_run @ [query_string]) search2 = None \<and>
   errors one_row_lib (connect_run @ [query_string]) search2 = [''partition unavailable''] \<and>
   callee search2 \<noteq> ''errors'' \<and>
   raised (Search_call one_row_lib []) = None \<and>
   format_exc \<notin> set (trace (Search_call one_row_lib [])) \<and>
   Search_call (one_row_lib\<lparr>errors := (\<lambda>h r. [])\<rparr>) [] = Search_call one_row_lib []"
proof -
  have m: "search2 \<in> set (trace (Search_call one_row_lib []))"
    by (simp add: Search_call_one_row one_row_run_def simple_run_def)
  have e: "raises one_row_lib (connect_run @ [query_string]) search2 = None"
    "errors one_row_lib (connect_run @ [query_string]) search2 = [''partition unavailable'']"
    by (simp_all add: one_row_lib_def)
  from partial_failure_unnoticed [where L = one_row_lib and f = "\<lambda>h r. []" and args = "[]"]
    quiet_one_row m e
  show ?thesis
    by blast
qed

end
